theory Spec2Isabelle
  imports Complex_Main
begin

section \<open>The SR3 optimizer of pysindy (pysindy/optimizers/sr3.py)\<close>

text \<open>
  The development embeds the class \<open>SR3\<close>: its constructor, the three helper methods
  \<open>_update_full_coef\<close>, \<open>_update_sparse_coef\<close>, \<open>_convergence_criterion\<close> and the
  iteration \<open>_reduce\<close>. A leading underscore is not an Isabelle identifier, so the
  methods are called \<open>update_full_coef\<close>, \<open>update_sparse_coef\<close>,
  \<open>convergence_criterion\<close> and \<open>reduce\<close>.

  Floating-point numbers are idealised as \<^typ>\<open>real\<close>: rounding, infinities and NaN are
  outside the model. Every \<open>raise\<close> of the source and of the numpy operations it calls is
  a value \<open>Inl e\<close> of the result type \<open>error + 'a\<close>.
\<close>

subsection \<open>Errors and warnings\<close>

datatype error =
    ValueError string
  | ConfigurationError string
  | LinAlgError
  | ZeroDivisionError
  | IndexError
  | UnboundLocalError

text \<open>
  The specification calls every construction-time failure a \<open>ConfigurationError\<close>; the
  source raises Python's \<open>ValueError\<close> for the four numeric checks.
\<close>

fun is_ConfigurationError :: "error \<Rightarrow> bool" where
  "is_ConfigurationError (ValueError m) = True"
| "is_ConfigurationError (ConfigurationError m) = True"
| "is_ConfigurationError e = False"

text \<open>
  \<open>warnings.warn(msg, ConvergenceWarning)\<close> is recorded in a list of emitted warnings
  (the behaviour under Python's default warning filter). The warning carries the number
  that the source formats into its message, \<open>self.max_iter\<close>.
\<close>

datatype warning = ConvergenceWarning int

definition bind_err :: "error + 'a \<Rightarrow> ('a \<Rightarrow> error + 'b) \<Rightarrow> error + 'b" where
  "bind_err m f = (case m of Inl e \<Rightarrow> Inl e | Inr v \<Rightarrow> f v)"

subsection \<open>numpy arrays\<close>

text \<open>
  A two-dimensional numpy array is the list of its rows. A one-dimensional response or
  coefficient vector is the array with one column. numpy arrays are rectangular:
  \<open>is_array r c a\<close> says that \<open>a\<close> has \<open>r\<close> rows of length \<open>c\<close>. The list of rows of
  an array without rows does not record its number of columns, so the statements about
  the entries of arrays below are for arrays with at least one row and one column.
\<close>

type_synonym ndarray = "real list list"

definition shape :: "ndarray \<Rightarrow> nat \<times> nat" where
  "shape a = (length a, (case a of [] \<Rightarrow> 0 | r # _ \<Rightarrow> length r))"

definition is_array :: "nat \<Rightarrow> nat \<Rightarrow> ndarray \<Rightarrow> bool" where
  "is_array r c a \<longleftrightarrow> length a = r \<and> list_all (\<lambda>row. length row = c) a"

text \<open>Entry \<open>(i, j)\<close> of an array.\<close>

definition entry :: "ndarray \<Rightarrow> nat \<Rightarrow> nat \<Rightarrow> real" where
  "entry a i j = a ! i ! j"

text \<open>
  Element-wise binary operators. Arrays of one shape are combined entry by entry;
  otherwise numpy broadcasts an axis of length 1 against the other array's axis, and
  raises \<open>ValueError\<close> when an axis differs and neither length is 1.
\<close>

definition bcast_dim :: "nat \<Rightarrow> nat \<Rightarrow> nat option" where
  "bcast_dim m n =
     (if m = n then Some m else if m = 1 then Some n else if n = 1 then Some m else None)"

definition bcast_entry :: "ndarray \<Rightarrow> nat \<Rightarrow> nat \<Rightarrow> real" where
  "bcast_entry a i j =
     entry a (if fst (shape a) = 1 then 0 else i) (if snd (shape a) = 1 then 0 else j)"

definition np_binop :: "(real \<Rightarrow> real \<Rightarrow> real) \<Rightarrow> ndarray \<Rightarrow> ndarray \<Rightarrow> error + ndarray" where
  "np_binop f a b =
     (if shape a = shape b then Inr (map2 (map2 f) a b)
      else
        (case (bcast_dim (fst (shape a)) (fst (shape b)),
               bcast_dim (snd (shape a)) (snd (shape b))) of
           (Some r, Some c) \<Rightarrow>
             Inr (map (\<lambda>i. map (\<lambda>j. f (bcast_entry a i j) (bcast_entry b i j)) [0..<c]) [0..<r])
         | _ \<Rightarrow> Inl (ValueError ''operands could not be broadcast together'')))"

definition np_add :: "ndarray \<Rightarrow> ndarray \<Rightarrow> error + ndarray" where
  "np_add = np_binop (+)"

definition np_sub :: "ndarray \<Rightarrow> ndarray \<Rightarrow> error + ndarray" where
  "np_sub = np_binop (-)"

text \<open>\<open>a / c\<close> and \<open>a ** 2\<close> for an array \<open>a\<close> and a scalar \<open>c\<close>.\<close>

definition np_div_scalar :: "ndarray \<Rightarrow> real \<Rightarrow> ndarray" where
  "np_div_scalar a c = map (map (\<lambda>t. t / c)) a"

definition np_square :: "ndarray \<Rightarrow> ndarray" where
  "np_square a = map (map (\<lambda>t. t ^ 2)) a"

definition np_zeros_like :: "ndarray \<Rightarrow> ndarray" where
  "np_zeros_like a = map (map (\<lambda>t. 0)) a"

text \<open>\<open>np.sum\<close> without an axis adds up every entry of the array.\<close>

definition np_sum :: "ndarray \<Rightarrow> real" where
  "np_sum a = sum_list (map sum_list a)"

text \<open>\<open>x.T\<close>, \<open>np.dot\<close> of two-dimensional arrays, \<open>np.full\<close> and \<open>np.diag\<close>.\<close>

definition np_T :: "ndarray \<Rightarrow> ndarray" where
  "np_T a = map (\<lambda>j. map (\<lambda>row. row ! j) a) [0..<snd (shape a)]"

definition vdot :: "real list \<Rightarrow> real list \<Rightarrow> real" where
  "vdot u v = sum_list (map2 (*) u v)"

definition np_dot :: "ndarray \<Rightarrow> ndarray \<Rightarrow> error + ndarray" where
  "np_dot a b =
     (if snd (shape a) = fst (shape b)
      then Inr (map (\<lambda>row. map (\<lambda>col. vdot row col) (np_T b)) a)
      else Inl (ValueError ''shapes not aligned''))"

definition np_full :: "nat \<Rightarrow> real \<Rightarrow> real list" where
  "np_full n v = replicate n v"

definition np_diag :: "real list \<Rightarrow> ndarray" where
  "np_diag d =
     map (\<lambda>i. map (\<lambda>j. if i = j then d ! i else 0) [0..<length d]) [0..<length d]"

subsection \<open>The linear-algebra library\<close>

text \<open>
  \<open>scipy.linalg.cho_factor\<close> and \<open>cho_solve\<close> are not code of this repository: they are
  parameters of the model. \<open>cho_factor\<close> returns the pair of the factor and a flag
  (lower or upper triangle) or raises; \<open>cho_solve\<close> takes that pair and a right-hand
  side. Each call of the library is recorded in a log, so that how often the matrix is
  factorised can be stated.
\<close>

type_synonym cho = "ndarray \<times> bool"

record linalg =
  cho_factor :: "ndarray \<Rightarrow> error + cho"
  cho_solve :: "cho \<Rightarrow> ndarray \<Rightarrow> error + ndarray"

datatype lib_call = Factor ndarray | Solve cho ndarray

subsection \<open>The proximal operators\<close>

text \<open>
  Modelled from the spec: \<open>pysindy.utils.get_prox\<close> and the operators it returns are
  not among the source files. Section 4.2 of the specification gives the registry: a
  fixed mapping from the names \<open>l0\<close>, \<open>l1\<close> and \<open>cad\<close> to element-wise functions of
  \<open>(value, threshold)\<close>, which rejects every other name with a configuration error.
  \<^item> \<open>l0\<close> returns the value unchanged where \<open>|value| \<ge> threshold\<close>, else \<open>0\<close>;
  \<^item> \<open>l1\<close> returns \<open>sign(value) \<cdot> max(|value| - threshold, 0)\<close>;
  \<^item> \<open>cad\<close>, with \<open>a = 5 \<cdot> threshold\<close>, returns \<open>0\<close> for \<open>|value| < threshold\<close>, the
    value for \<open>|value| > a\<close>, and in between the linear interpolation that is continuous
    at both boundaries.
\<close>

definition l0 :: "real \<Rightarrow> real \<Rightarrow> real" where
  "l0 v t = (if \<bar>v\<bar> \<ge> t then v else 0)"

definition l1 :: "real \<Rightarrow> real \<Rightarrow> real" where
  "l1 v t = sgn v * max (\<bar>v\<bar> - t) 0"

definition cad :: "real \<Rightarrow> real \<Rightarrow> real" where
  "cad v t =
     (if \<bar>v\<bar> < t then 0
      else if \<bar>v\<bar> > 5 * t then v
      else sgn v * (5 * t) * (\<bar>v\<bar> - t) / (5 * t - t))"

definition elementwise :: "(real \<Rightarrow> real \<Rightarrow> real) \<Rightarrow> ndarray \<Rightarrow> real \<Rightarrow> ndarray" where
  "elementwise f a t = map (map (\<lambda>v. f v t)) a"

definition prox_l0 :: "ndarray \<Rightarrow> real \<Rightarrow> ndarray" where
  "prox_l0 = elementwise l0"

definition prox_l1 :: "ndarray \<Rightarrow> real \<Rightarrow> ndarray" where
  "prox_l1 = elementwise l1"

definition prox_cad :: "ndarray \<Rightarrow> real \<Rightarrow> ndarray" where
  "prox_cad = elementwise cad"

definition get_prox :: "string \<Rightarrow> error + (ndarray \<Rightarrow> real \<Rightarrow> ndarray)" where
  "get_prox name =
     (if name = ''l0'' then Inr prox_l0
      else if name = ''l1'' then Inr prox_l1
      else if name = ''cad'' then Inr prox_cad
      else Inl (ConfigurationError ''unknown operator''))"

subsection \<open>The optimizer object\<close>

text \<open>
  The fields of an \<open>SR3\<close> instance: the five hyperparameters and the resolved operator,
  which \<open>__init__\<close> assigns, and the state of the base optimizer that the methods read
  and write (\<open>iters\<close>, \<open>history_\<close>, \<open>coef_\<close>, \<open>coef_full_\<close>). An Isabelle name cannot end with an
  underscore: the attributes \<open>history_\<close>, \<open>coef_\<close> and \<open>coef_full_\<close> are the fields
  \<open>history'\<close>, \<open>coef'\<close> and \<open>coef_full'\<close>. The attribute \<open>coef_full_\<close> exists only after
  \<open>_reduce\<close> has assigned it.
\<close>

record sr3 =
  threshold :: real
  nu :: real
  tol :: real
  thresholder :: string
  prox :: "ndarray \<Rightarrow> real \<Rightarrow> ndarray"
  max_iter :: int
  iters :: nat
  history' :: "ndarray list"
  coef' :: ndarray
  coef_full' :: "ndarray option"

text \<open>
  \<open>SR3.__init__\<close>. Modelled from the spec: the constructor of the base optimizer
  (\<open>super().__init__\<close>) is not among the source files; by the specification's base
  contract it leaves an iteration counter, a history and the coefficient state, here
  counter \<open>0\<close>, the empty history and no coefficients.
\<close>

definition SR3_init :: "real \<Rightarrow> real \<Rightarrow> real \<Rightarrow> string \<Rightarrow> int \<Rightarrow> error + sr3" where
  "SR3_init threshold' nu' tol' thresholder' max_iter' =
     (if threshold' < 0 then Inl (ValueError ''threshold cannot be negative'')
      else if nu' \<le> 0 then Inl (ValueError ''nu must be positive'')
      else if tol' \<le> 0 then Inl (ValueError ''tol must be positive'')
      else if max_iter' \<le> 0 then Inl (ValueError ''max_iter must be positive'')
      else bind_err (get_prox thresholder') (\<lambda>p.
        Inr \<lparr>threshold = threshold', nu = nu', tol = tol', thresholder = thresholder',
             prox = p, max_iter = max_iter', iters = 0, history' = [], coef' = [],
             coef_full' = None\<rparr>))"

subsection \<open>The methods\<close>

text \<open>
  \<open>_update_full_coef\<close>: solves with the factorization it is given and counts the
  iteration. The call of \<open>cho_solve\<close> is appended to the library log.
\<close>

definition update_full_coef ::
  "linalg \<Rightarrow> sr3 \<Rightarrow> lib_call list \<Rightarrow> cho \<Rightarrow> ndarray \<Rightarrow> ndarray
     \<Rightarrow> error + (ndarray \<times> sr3 \<times> lib_call list)" where
  "update_full_coef L self lg c x_transpose_y coef_sparse =
     bind_err (np_add x_transpose_y (np_div_scalar coef_sparse (nu self))) (\<lambda>b.
     bind_err (cho_solve L c b) (\<lambda>coef_full.
       Inr (coef_full, self\<lparr>iters := iters self + 1\<rparr>, lg @ [Solve c b])))"

text \<open>\<open>_update_sparse_coef\<close>: applies the operator and appends the result to the history.\<close>

definition update_sparse_coef :: "sr3 \<Rightarrow> ndarray \<Rightarrow> ndarray \<times> sr3" where
  "update_sparse_coef self coef_full =
     (let coef_sparse = prox self coef_full (threshold self)
      in (coef_sparse, self\<lparr>history' := history' self @ [coef_sparse]\<rparr>))"

text \<open>
  \<open>_convergence_criterion\<close>: \<open>self.history_[-1]\<close> raises \<open>IndexError\<close> on the empty
  history.
\<close>

definition convergence_criterion :: "sr3 \<Rightarrow> error + real" where
  "convergence_criterion self =
     (if history' self = [] then Inl IndexError
      else
        (let this_coef = last (history' self);
             last_coef = (if length (history' self) > 1
                          then last (butlast (history' self))
                          else np_zeros_like this_coef)
         in bind_err (np_sub this_coef last_coef) (\<lambda>d. Inr (np_sum (np_square d)))))"

text \<open>
  The local variables of \<open>_reduce\<close> that the loop changes, with the library log:
  the local \<open>coef_full\<close> is unbound until the loop body has run once.
\<close>

record frame =
  self :: sr3
  coef_sparse :: ndarray
  coef_full :: "ndarray option"
  calls :: "lib_call list"

text \<open>
  The \<open>for\<close> loop over \<open>range(self.max_iter)\<close>, by recursion on the number of
  iterations left. It returns whether it left by \<open>break\<close>; the \<open>else\<close> clause of the
  loop runs when it did not.
\<close>

fun for_loop :: "linalg \<Rightarrow> cho \<Rightarrow> ndarray \<Rightarrow> nat \<Rightarrow> frame \<Rightarrow> error + (bool \<times> frame)" where
  "for_loop L c x_transpose_y 0 fr = Inr (False, fr)"
| "for_loop L c x_transpose_y (Suc n) fr =
     bind_err (update_full_coef L (self fr) (calls fr) c x_transpose_y (coef_sparse fr))
       (\<lambda>(w, s1, lg).
          (case update_sparse_coef s1 w of
             (v, s2) \<Rightarrow>
               bind_err (convergence_criterion s2) (\<lambda>crit.
                 (let fr' = \<lparr>self = s2, coef_sparse = v, coef_full = Some w, calls = lg\<rparr>
                  in if crit < tol s2 then Inr (True, fr')
                     else for_loop L c x_transpose_y n fr'))))"

text \<open>The two ways in which the loop ends, as the specification names them.\<close>

datatype exit = Converged | Exhausted

record result =
  obj :: sr3
  exit :: exit
  emitted :: "warning list"
  lib_log :: "lib_call list"

text \<open>
  \<open>_reduce\<close>. \<open>1.0 / self.nu\<close> raises \<open>ZeroDivisionError\<close> for \<open>nu = 0\<close>; the
  assignment \<open>self.coef_full_ = coef_full\<close> raises \<open>UnboundLocalError\<close> when the loop
  body never ran.
\<close>

definition normal_matrix :: "ndarray \<Rightarrow> real \<Rightarrow> error + ndarray" where
  "normal_matrix x nu' =
     bind_err (np_dot (np_T x) x) (\<lambda>xtx.
       np_add xtx (np_diag (np_full (snd (shape x)) (1 / nu'))))"

definition reduce :: "linalg \<Rightarrow> sr3 \<Rightarrow> ndarray \<Rightarrow> ndarray \<Rightarrow> error + result" where
  "reduce L s x y =
     (if nu s = 0 then Inl ZeroDivisionError
      else
        bind_err (normal_matrix x (nu s)) (\<lambda>m.
        bind_err (cho_factor L m) (\<lambda>c.
        bind_err (np_dot (np_T x) y) (\<lambda>x_transpose_y.
        bind_err (for_loop L c x_transpose_y (nat (max_iter s))
                    \<lparr>self = s, coef_sparse = coef' s, coef_full = None, calls = [Factor m]\<rparr>)
          (\<lambda>(broke, fr).
             (case coef_full fr of
                None \<Rightarrow> Inl UnboundLocalError
              | Some w \<Rightarrow>
                  Inr \<lparr>obj = (self fr)\<lparr>coef' := coef_sparse fr, coef_full' := Some w\<rparr>,
                       exit = (if broke then Converged else Exhausted),
                       emitted = (if broke then [] else [ConvergenceWarning (max_iter s)]),
                       lib_log = calls fr\<rparr>))))))"

text \<open>
  Modelled from the spec: \<open>fit\<close> belongs to the base optimizer, which is not among the
  source files. By the specification a fit starts in the state \<open>Initialized\<close>: the
  caller's initial guess is in the sparse coefficient \<open>coef_\<close>, the history holds one
  snapshot per completed iteration (none yet) and the iteration counter counts the
  iterations of this fit; then the iteration \<open>_reduce\<close> runs.
\<close>

definition fit :: "linalg \<Rightarrow> sr3 \<Rightarrow> ndarray \<Rightarrow> ndarray \<Rightarrow> error + result" where
  "fit L s x y = reduce L (s\<lparr>iters := 0, history' := []\<rparr>) x y"

subsection \<open>Vocabulary for the statements\<close>

text \<open>
  One execution of the loop body, up to the value of the convergence criterion, and the
  part of \<open>_reduce\<close> before the post-loop assignments. Both are read off the definitions
  of \<open>for_loop\<close> and \<open>reduce\<close> above (lemmas \<open>for_loop_Suc\<close> and \<open>reduce_run_loop\<close>).
\<close>

definition loop_body :: "linalg \<Rightarrow> cho \<Rightarrow> ndarray \<Rightarrow> frame \<Rightarrow> error + (real \<times> frame)" where
  "loop_body L c x_transpose_y fr =
     bind_err (update_full_coef L (self fr) (calls fr) c x_transpose_y (coef_sparse fr))
       (\<lambda>(w, s1, lg).
          (case update_sparse_coef s1 w of
             (v, s2) \<Rightarrow>
               bind_err (convergence_criterion s2) (\<lambda>crit.
                 Inr (crit, \<lparr>self = s2, coef_sparse = v, coef_full = Some w, calls = lg\<rparr>))))"

definition run_loop :: "linalg \<Rightarrow> sr3 \<Rightarrow> ndarray \<Rightarrow> ndarray \<Rightarrow> error + (bool \<times> frame)" where
  "run_loop L s x y =
     (if nu s = 0 then Inl ZeroDivisionError
      else
        bind_err (normal_matrix x (nu s)) (\<lambda>m.
        bind_err (cho_factor L m) (\<lambda>c.
        bind_err (np_dot (np_T x) y) (\<lambda>x_transpose_y.
          for_loop L c x_transpose_y (nat (max_iter s))
            \<lparr>self = s, coef_sparse = coef' s, coef_full = None, calls = [Factor m]\<rparr>))))"

text \<open>
  Two properties of a frame after an execution of the loop body. \<open>last_computed\<close>: the
  locals hold the pair computed by the last iteration, that is, \<open>coef_full\<close> is bound
  to the result of the last recorded solve, \<open>coef_sparse\<close> is the operator applied to
  it, and it is the last snapshot of the history. \<open>checked\<close>: the criterion on the
  history is defined and not below \<open>tol\<close>.
\<close>

definition last_computed :: "linalg \<Rightarrow> frame \<Rightarrow> bool" where
  "last_computed L fr \<longleftrightarrow>
     (\<exists>c b w. calls fr \<noteq> [] \<and> last (calls fr) = Solve c b \<and> cho_solve L c b = Inr w \<and>
        coef_full fr = Some w \<and> coef_sparse fr = prox (self fr) w (threshold (self fr))) \<and>
     history' (self fr) \<noteq> [] \<and> coef_sparse fr = last (history' (self fr))"

definition checked :: "frame \<Rightarrow> bool" where
  "checked fr \<longleftrightarrow>
     (\<exists>crit. convergence_criterion (self fr) = Inr crit \<and> \<not> crit < tol (self fr))"

text \<open>
  The contract of the library that the specification gives (section 4.3): a solve with
  the factorization \<open>c\<close> of the matrix \<open>m\<close> returns a \<open>w\<close> with \<open>m \<cdot> w = b\<close>.
\<close>

definition solves :: "linalg \<Rightarrow> ndarray \<Rightarrow> cho \<Rightarrow> bool" where
  "solves L m c \<longleftrightarrow> (\<forall>b w. cho_solve L c b = Inr w \<longrightarrow> np_dot m w = Inr b)"

text \<open>
  The iterations as the specification describes them: starting from the sparse
  coefficient \<open>v\<close>, each right-hand side \<open>b\<close> is \<open>X\<^sup>T Y + v / nu\<close> for the sparse
  coefficient before it, the solve of \<open>b\<close> with the factorization \<open>c\<close> succeeds, and the
  next snapshot \<open>h\<close> is the operator applied to its result.
\<close>

fun iterates ::
  "linalg \<Rightarrow> (ndarray \<Rightarrow> real \<Rightarrow> ndarray) \<Rightarrow> real \<Rightarrow> real \<Rightarrow> cho \<Rightarrow> ndarray \<Rightarrow> ndarray
     \<Rightarrow> ndarray list \<Rightarrow> ndarray list \<Rightarrow> bool" where
  "iterates L p th nu0 c xty v [] [] = True"
| "iterates L p th nu0 c xty v (h # hs) (b # bs) =
     (np_add xty (np_div_scalar v nu0) = Inr b \<and>
      (case cho_solve L c b of Inl e \<Rightarrow> False | Inr w \<Rightarrow> h = p w th) \<and>
      iterates L p th nu0 c xty h hs bs)"
| "iterates L p th nu0 c xty v hs bs = False"


text \<open>The hyperparameters and the initial guess: what a fit is a function of.\<close>

definition same_config :: "sr3 \<Rightarrow> sr3 \<Rightarrow> bool" where
  "same_config s t \<longleftrightarrow>
     threshold s = threshold t \<and> nu s = nu t \<and> tol s = tol t \<and>
     thresholder s = thresholder t \<and> prox s = prox t \<and> max_iter s = max_iter t"

subsection \<open>A concrete instance\<close>

text \<open>
  The Cholesky factorization and solve of a \<open>1 \<times> 1\<close> system, to run the optimizer on
  one feature: the factor of \<open>[[m]]\<close> with \<open>m > 0\<close> is \<open>[[sqrt m]]\<close>, and the solve
  divides the right-hand side, which must have one row, by its square.
\<close>

definition scalar_linalg :: linalg where
  "scalar_linalg =
     \<lparr>cho_factor = (\<lambda>m. if shape m = (1, 1) \<and> 0 < entry m 0 0
                          then Inr ([[sqrt (entry m 0 0)]], False) else Inl LinAlgError),
      cho_solve = (\<lambda>c b. if length b = 1
                           then Inr (np_div_scalar b ((entry (fst c) 0 0)\<^sup>2))
                           else Inl (ValueError ''incompatible dimensions''))\<rparr>"

text \<open>
  The optimizer with the default hyperparameters and a given \<open>max_iter\<close>, after the
  caller has stored the initial guess \<open>v\<close>.
\<close>

definition example_sr3 :: "int \<Rightarrow> ndarray \<Rightarrow> sr3" where
  "example_sr3 n v =
     \<lparr>threshold = 1 / 10, nu = 1, tol = 1 / 100000, thresholder = ''l0'', prox = prox_l0,
      max_iter = n, iters = 0, history' = [], coef' = v, coef_full' = None\<rparr>"

section \<open>The loop: auxiliary lemmas\<close>

lemma bind_err_Inl: "bind_err (Inl e) f = Inl e"
  by (simp add: bind_err_def)

lemma bind_err_Inr: "bind_err (Inr v) f = f v"
  by (simp add: bind_err_def)

lemma bind_err_eq_Inr: "bind_err m f = Inr r \<longleftrightarrow> (\<exists>v. m = Inr v \<and> f v = Inr r)"
  by (cases m) (simp_all add: bind_err_def)

lemma for_loop_Suc:
  "for_loop L c xty (Suc n) fr =
     bind_err (loop_body L c xty fr)
       (\<lambda>(crit, fr'). if crit < tol (self fr') then Inr (True, fr') else for_loop L c xty n fr')"
  by (auto simp: loop_body_def bind_err_def Let_def split: sum.splits prod.splits)

lemma for_loop_Suc_Inr:
  "for_loop L c xty (Suc n) fr = Inr res \<longleftrightarrow>
     (\<exists>crit fr1. loop_body L c xty fr = Inr (crit, fr1) \<and>
        (if crit < tol (self fr1) then Inr (True, fr1) else for_loop L c xty n fr1) = Inr res)"
  unfolding for_loop_Suc bind_err_eq_Inr by auto

lemma reduce_run_loop:
  "reduce L s x y =
     bind_err (run_loop L s x y)
       (\<lambda>(broke, fr).
          (case coef_full fr of
             None \<Rightarrow> Inl UnboundLocalError
           | Some w \<Rightarrow>
               Inr \<lparr>obj = (self fr)\<lparr>coef' := coef_sparse fr, coef_full' := Some w\<rparr>,
                    exit = (if broke then Converged else Exhausted),
                    emitted = (if broke then [] else [ConvergenceWarning (max_iter s)]),
                    lib_log = calls fr\<rparr>))"
  by (auto simp: reduce_def run_loop_def bind_err_def split: sum.splits)

text \<open>What one execution of the loop body does to the frame.\<close>

lemma loop_body_Inr:
  assumes "loop_body L c xty fr = Inr (crit, fr')"
  shows "\<exists>b w. np_add xty (np_div_scalar (coef_sparse fr) (nu (self fr))) = Inr b
           \<and> cho_solve L c b = Inr w
           \<and> coef_full fr' = Some w
           \<and> coef_sparse fr' = prox (self fr) w (threshold (self fr))
           \<and> calls fr' = calls fr @ [Solve c b]
           \<and> self fr' = (self fr)\<lparr>iters := iters (self fr) + 1,
                                   history' := history' (self fr) @ [coef_sparse fr']\<rparr>
           \<and> convergence_criterion (self fr') = Inr crit"
  using assms
  by (auto simp: loop_body_def update_full_coef_def update_sparse_coef_def bind_err_eq_Inr Let_def)

lemma loop_body_fields:
  assumes "loop_body L c xty fr = Inr (crit, fr')"
  shows "threshold (self fr') = threshold (self fr)" "nu (self fr') = nu (self fr)"
    "tol (self fr') = tol (self fr)" "thresholder (self fr') = thresholder (self fr)"
    "prox (self fr') = prox (self fr)" "max_iter (self fr') = max_iter (self fr)"
    "coef' (self fr') = coef' (self fr)" "coef_full' (self fr') = coef_full' (self fr)"
    "iters (self fr') = iters (self fr) + 1"
    "history' (self fr') = history' (self fr) @ [coef_sparse fr']"
    "coef_full fr' \<noteq> None"
  using loop_body_Inr[OF assms] by auto

lemma for_loop_fields:
  "for_loop L c xty n fr = Inr (broke, fr') \<Longrightarrow>
     threshold (self fr') = threshold (self fr) \<and> nu (self fr') = nu (self fr) \<and>
     tol (self fr') = tol (self fr) \<and> thresholder (self fr') = thresholder (self fr) \<and>
     prox (self fr') = prox (self fr) \<and> max_iter (self fr') = max_iter (self fr) \<and>
     coef' (self fr') = coef' (self fr) \<and> coef_full' (self fr') = coef_full' (self fr)"
proof (induction n arbitrary: fr)
  case 0
  then show ?case by simp
next
  case (Suc n)
  from Suc.prems obtain crit fr1 where
    b: "loop_body L c xty fr = Inr (crit, fr1)" and
    r: "(if crit < tol (self fr1) then Inr (True, fr1) else for_loop L c xty n fr1) = Inr (broke, fr')"
    unfolding for_loop_Suc_Inr by blast
  show ?case
  proof (cases "crit < tol (self fr1)")
    case True
    with r have "fr' = fr1" by simp
    with loop_body_fields[OF b] show ?thesis by simp
  next
    case False
    with r have "for_loop L c xty n fr1 = Inr (broke, fr')" by simp
    from Suc.IH[OF this] loop_body_fields[OF b] show ?thesis by simp
  qed
qed

text \<open>Counting: iterations, history entries and library calls.\<close>

lemma for_loop_count:
  "for_loop L c xty n fr = Inr (broke, fr') \<Longrightarrow>
     \<exists>hs bs. history' (self fr') = history' (self fr) @ hs
       \<and> calls fr' = calls fr @ map (Solve c) bs
       \<and> length hs = length bs
       \<and> iters (self fr') = iters (self fr) + length hs
       \<and> length hs \<le> n
       \<and> (\<not> broke \<longrightarrow> length hs = n)
       \<and> (broke \<longrightarrow> 0 < length hs)"
proof (induction n arbitrary: fr)
  case 0
  then show ?case by simp
next
  case (Suc n)
  from Suc.prems obtain crit fr1 where
    b: "loop_body L c xty fr = Inr (crit, fr1)" and
    r: "(if crit < tol (self fr1) then Inr (True, fr1) else for_loop L c xty n fr1) = Inr (broke, fr')"
    unfolding for_loop_Suc_Inr by blast
  from loop_body_Inr[OF b] obtain b1 where
    c1: "calls fr1 = calls fr @ [Solve c b1]" and
    h1: "history' (self fr1) = history' (self fr) @ [coef_sparse fr1]" and
    i1: "iters (self fr1) = iters (self fr) + 1"
    by auto
  show ?case
  proof (cases "crit < tol (self fr1)")
    case True
    with r have "fr' = fr1" "broke" by simp_all
    with c1 h1 i1 show ?thesis
      by (intro exI[of _ "[coef_sparse fr1]"] exI[of _ "[b1]"]) simp
  next
    case False
    with r have "for_loop L c xty n fr1 = Inr (broke, fr')" by simp
    from Suc.IH[OF this] obtain hs bs where
      "history' (self fr') = history' (self fr1) @ hs"
      "calls fr' = calls fr1 @ map (Solve c) bs"
      "length hs = length bs"
      "iters (self fr') = iters (self fr1) + length hs"
      "length hs \<le> n" "\<not> broke \<longrightarrow> length hs = n"
      by blast
    with c1 h1 i1 show ?thesis
      by (intro exI[of _ "coef_sparse fr1 # hs"] exI[of _ "b1 # bs"]) simp
  qed
qed

text \<open>The state in which the loop is left.\<close>

lemma loop_body_last_computed:
  assumes "loop_body L c xty fr = Inr (crit, fr')"
  shows "last_computed L fr'"
proof -
  from loop_body_Inr[OF assms] obtain b w where
    f: "cho_solve L c b = Inr w" "coef_full fr' = Some w"
      "coef_sparse fr' = prox (self fr) w (threshold (self fr))"
      "calls fr' = calls fr @ [Solve c b]"
      "self fr' = (self fr)\<lparr>iters := iters (self fr) + 1,
                              history' := history' (self fr) @ [coef_sparse fr']\<rparr>"
    by blast
  have "prox (self fr') = prox (self fr)" "threshold (self fr') = threshold (self fr)"
    "history' (self fr') = history' (self fr) @ [coef_sparse fr']"
    by (simp_all add: f(5))
  with f(1-4) show ?thesis
    unfolding last_computed_def
    by (intro conjI exI[of _ c] exI[of _ b] exI[of _ w]) simp_all
qed

lemma for_loop_broke:
  "for_loop L c xty n fr = Inr (True, fr') \<Longrightarrow>
     last_computed L fr' \<and> (\<exists>crit. convergence_criterion (self fr') = Inr crit \<and> crit < tol (self fr'))"
proof (induction n arbitrary: fr)
  case 0
  then show ?case by simp
next
  case (Suc n)
  from Suc.prems obtain crit fr1 where
    b: "loop_body L c xty fr = Inr (crit, fr1)" and
    r: "(if crit < tol (self fr1) then Inr (True, fr1) else for_loop L c xty n fr1) = Inr (True, fr')"
    unfolding for_loop_Suc_Inr by blast
  show ?case
  proof (cases "crit < tol (self fr1)")
    case True
    with r have "fr' = fr1" by simp
    with True loop_body_last_computed[OF b] loop_body_Inr[OF b] show ?thesis by auto
  next
    case False
    with r have "for_loop L c xty n fr1 = Inr (True, fr')" by simp
    from Suc.IH[OF this] show ?thesis .
  qed
qed

lemma for_loop_exhausted:
  "for_loop L c xty n fr = Inr (False, fr') \<Longrightarrow> 0 < n \<or> (last_computed L fr \<and> checked fr) \<Longrightarrow>
     last_computed L fr' \<and> checked fr'"
proof (induction n arbitrary: fr)
  case 0
  then show ?case by simp
next
  case (Suc n)
  from Suc.prems(1) obtain crit fr1 where
    b: "loop_body L c xty fr = Inr (crit, fr1)" and
    r: "(if crit < tol (self fr1) then Inr (True, fr1) else for_loop L c xty n fr1) = Inr (False, fr')"
    unfolding for_loop_Suc_Inr by blast
  have nb: "\<not> crit < tol (self fr1)" using r by (auto split: if_splits)
  with r have l: "for_loop L c xty n fr1 = Inr (False, fr')" by simp
  have "last_computed L fr1 \<and> checked fr1"
    using loop_body_last_computed[OF b] loop_body_Inr[OF b] nb by (auto simp: checked_def)
  then show ?case using Suc.IH[OF l] by blast
qed


lemma run_loop_Inr:
  "run_loop L s x y = Inr res \<longleftrightarrow>
     nu s \<noteq> 0 \<and>
     (\<exists>m c xty. normal_matrix x (nu s) = Inr m \<and> cho_factor L m = Inr c \<and>
        np_dot (np_T x) y = Inr xty \<and>
        for_loop L c xty (nat (max_iter s))
          \<lparr>self = s, coef_sparse = coef' s, coef_full = None, calls = [Factor m]\<rparr> = Inr res)"
  by (auto simp: run_loop_def bind_err_eq_Inr)

lemma reduce_Inr:
  "reduce L s x y = Inr r \<longleftrightarrow>
     (\<exists>broke fr w. run_loop L s x y = Inr (broke, fr) \<and> coef_full fr = Some w \<and>
        r = \<lparr>obj = (self fr)\<lparr>coef' := coef_sparse fr, coef_full' := Some w\<rparr>,
             exit = (if broke then Converged else Exhausted),
             emitted = (if broke then [] else [ConvergenceWarning (max_iter s)]),
             lib_log = calls fr\<rparr>)"
proof (cases "run_loop L s x y")
  case (Inl e)
  then show ?thesis by (simp add: reduce_run_loop bind_err_Inl)
next
  case (Inr res)
  obtain broke fr where res: "res = (broke, fr)" by (cases res)
  show ?thesis
    unfolding reduce_run_loop Inr res bind_err_Inr
    by (cases "coef_full fr") auto
qed

lemma convergence_criterion_coef [simp]:
  "convergence_criterion (s\<lparr>coef' := v\<rparr>) = convergence_criterion s"
  by (simp add: convergence_criterion_def Let_def)

lemma convergence_criterion_forget [simp]:
  "convergence_criterion (s\<lparr>coef_full' := a\<rparr>) = convergence_criterion s"
  by (simp add: convergence_criterion_def Let_def)

text \<open>The frame in which the loop of a fit is left.\<close>

lemma run_loop_frame:
  assumes "run_loop L s x y = Inr (broke, fr)"
  shows "tol (self fr) = tol s" "max_iter (self fr) = max_iter s"
    "iters s \<le> iters (self fr)" "iters (self fr) \<le> iters s + nat (max_iter s)"
    "\<not> broke \<Longrightarrow> iters (self fr) = iters s + nat (max_iter s)"
    "broke \<Longrightarrow> iters s < iters (self fr)"
    "\<exists>hs. history' (self fr) = history' s @ hs \<and> iters (self fr) = iters s + length hs"
proof -
  from assms obtain m c xty where
    l: "for_loop L c xty (nat (max_iter s))
          \<lparr>self = s, coef_sparse = coef' s, coef_full = None, calls = [Factor m]\<rparr> = Inr (broke, fr)"
    unfolding run_loop_Inr by blast
  from for_loop_fields[OF l] show "tol (self fr) = tol s" "max_iter (self fr) = max_iter s"
    by simp_all
  from for_loop_count[OF l] obtain hs bs where
    h: "history' (self fr) = history' s @ hs" "iters (self fr) = iters s + length hs"
      "length hs \<le> nat (max_iter s)" "\<not> broke \<longrightarrow> length hs = nat (max_iter s)"
      "broke \<longrightarrow> 0 < length hs"
    by auto
  from h show "iters s \<le> iters (self fr)" "iters (self fr) \<le> iters s + nat (max_iter s)"
    "\<not> broke \<Longrightarrow> iters (self fr) = iters s + nat (max_iter s)"
    "broke \<Longrightarrow> iters s < iters (self fr)"
    by simp_all
  from h show "\<exists>hs. history' (self fr) = history' s @ hs \<and> iters (self fr) = iters s + length hs"
    by blast
qed

lemma run_loop_left:
  assumes "run_loop L s x y = Inr (broke, fr)" and "0 < max_iter s"
  shows "last_computed L fr"
    and "\<exists>crit. convergence_criterion (self fr) = Inr crit \<and> (broke \<longleftrightarrow> crit < tol s)"
proof -
  from assms(1) obtain m c xty where
    l: "for_loop L c xty (nat (max_iter s))
          \<lparr>self = s, coef_sparse = coef' s, coef_full = None, calls = [Factor m]\<rparr> = Inr (broke, fr)"
    unfolding run_loop_Inr by blast
  have t: "tol (self fr) = tol s" using run_loop_frame(1)[OF assms(1)] .
  have n: "0 < nat (max_iter s)" using assms(2) by simp
  show "last_computed L fr"
  proof (cases broke)
    case True
    with l have "for_loop L c xty (nat (max_iter s))
          \<lparr>self = s, coef_sparse = coef' s, coef_full = None, calls = [Factor m]\<rparr> = Inr (True, fr)"
      by simp
    from for_loop_broke[OF this] show ?thesis by simp
  next
    case False
    with l have "for_loop L c xty (nat (max_iter s))
          \<lparr>self = s, coef_sparse = coef' s, coef_full = None, calls = [Factor m]\<rparr> = Inr (False, fr)"
      by simp
    from for_loop_exhausted[OF this] n show ?thesis by simp
  qed
  show "\<exists>crit. convergence_criterion (self fr) = Inr crit \<and> (broke \<longleftrightarrow> crit < tol s)"
  proof (cases broke)
    case True
    with l have "for_loop L c xty (nat (max_iter s))
          \<lparr>self = s, coef_sparse = coef' s, coef_full = None, calls = [Factor m]\<rparr> = Inr (True, fr)"
      by simp
    from for_loop_broke[OF this] True t show ?thesis by auto
  next
    case False
    with l have "for_loop L c xty (nat (max_iter s))
          \<lparr>self = s, coef_sparse = coef' s, coef_full = None, calls = [Factor m]\<rparr> = Inr (False, fr)"
      by simp
    from for_loop_exhausted[OF this] n have "checked fr" by simp
    with False t show ?thesis by (auto simp: checked_def)
  qed
qed

lemma run_loop_positive:
  assumes "run_loop L s x y = Inr (broke, fr)" and "coef_full fr = Some w"
  shows "0 < max_iter s"
proof (rule ccontr)
  assume "\<not> 0 < max_iter s"
  then have "nat (max_iter s) = 0" by simp
  with assms(1) have "coef_full fr = None"
    unfolding run_loop_Inr by auto
  with assms(2) show False by simp
qed

subsection \<open>The criterion on a history of one entry, the constructor\<close>

lemma shape_zeros_like: "shape (np_zeros_like a) = shape a"
  by (cases a) (simp_all add: shape_def np_zeros_like_def)

lemma map2_minus_zero: "map2 (-) r (map (\<lambda>t. 0) r) = (r :: real list)"
  by (induction r) simp_all

lemma map2_map2_minus_zero: "map2 (map2 (-)) a (map (map (\<lambda>t. 0)) a) = (a :: real list list)"
  by (induction a) (simp_all add: map2_minus_zero)

lemma np_sub_zeros_like: "np_sub a (np_zeros_like a) = Inr a"
  unfolding np_sub_def np_binop_def
  by (simp add: shape_zeros_like) (simp add: np_zeros_like_def map2_map2_minus_zero)

lemma convergence_criterion_single:
  "history' s = [v] \<Longrightarrow> convergence_criterion s = Inr (np_sum (np_square v))"
  by (simp add: convergence_criterion_def np_sub_zeros_like bind_err_Inr)

lemma fit_reduce: "fit L s x y = reduce L (s\<lparr>iters := 0, history' := []\<rparr>) x y"
  by (simp add: fit_def)

lemma SR3_init_Inr:
  "SR3_init th nu0 tol0 name mi = Inr s \<longleftrightarrow>
     0 \<le> th \<and> 0 < nu0 \<and> 0 < tol0 \<and> 0 < mi \<and>
     (\<exists>p. get_prox name = Inr p \<and>
        s = \<lparr>threshold = th, nu = nu0, tol = tol0, thresholder = name, prox = p, max_iter = mi,
             iters = 0, history' = [], coef' = [], coef_full' = None\<rparr>)"
  by (auto simp: SR3_init_def bind_err_eq_Inr)

lemma get_prox_Inr:
  "get_prox name = Inr p \<longleftrightarrow>
     (name = ''l0'' \<and> p = prox_l0) \<or> (name = ''l1'' \<and> p = prox_l1) \<or>
     (name = ''cad'' \<and> p = prox_cad)"
  by (auto simp: get_prox_def)

lemma get_prox_Inl:
  "get_prox name = Inl e \<longleftrightarrow>
     name \<notin> {''l0'', ''l1'', ''cad''} \<and> e = ConfigurationError ''unknown operator''"
  by (auto simp: get_prox_def)

lemma SR3_init_Inl:
  "SR3_init th nu0 tol0 name mi = Inl e \<longleftrightarrow>
     (th < 0 \<and> e = ValueError ''threshold cannot be negative'') \<or>
     (0 \<le> th \<and> nu0 \<le> 0 \<and> e = ValueError ''nu must be positive'') \<or>
     (0 \<le> th \<and> 0 < nu0 \<and> tol0 \<le> 0 \<and> e = ValueError ''tol must be positive'') \<or>
     (0 \<le> th \<and> 0 < nu0 \<and> 0 < tol0 \<and> mi \<le> 0 \<and> e = ValueError ''max_iter must be positive'') \<or>
     (0 \<le> th \<and> 0 < nu0 \<and> 0 < tol0 \<and> 0 < mi \<and> name \<notin> {''l0'', ''l1'', ''cad''} \<and>
        e = ConfigurationError ''unknown operator'')"
proof (cases "get_prox name")
  case (Inl e')
  then show ?thesis
    using get_prox_Inl[of name e'] by (auto simp: SR3_init_def bind_err_Inl)
next
  case (Inr p)
  then have "name \<in> {''l0'', ''l1'', ''cad''}" unfolding get_prox_Inr by auto
  with Inr show ?thesis
    by (auto simp: SR3_init_def bind_err_Inr)
qed

subsection \<open>Arrays by their entries\<close>

lemma is_array_nth: "is_array r c a \<Longrightarrow> i < r \<Longrightarrow> length (a ! i) = c"
  by (simp add: is_array_def list_all_length)

lemma is_array_length: "is_array r c a \<Longrightarrow> length a = r"
  by (simp add: is_array_def)

lemma is_array_shape: "is_array r c a \<Longrightarrow> shape a = (r, if r = 0 then 0 else c)"
  by (cases a) (auto simp: is_array_def shape_def)

lemma np_sum_entries:
  assumes "is_array r c a"
  shows "np_sum a = (\<Sum>i<r. \<Sum>j<c. entry a i j)"
proof -
  have "np_sum a = (\<Sum>i = 0..<length a. sum_list (a ! i))"
    by (simp add: np_sum_def sum_list_sum_nth)
  also have "\<dots> = (\<Sum>i = 0..<r. \<Sum>j = 0..<c. a ! i ! j)"
    using assms by (auto simp: sum_list_sum_nth is_array_length is_array_nth intro!: sum.cong)
  finally show ?thesis by (simp add: entry_def atLeast0LessThan)
qed

lemma np_sub_arrays:
  assumes "is_array r c a" and "is_array r c b"
  shows "np_sub b a = Inr (map2 (map2 (-)) b a)"
  using assms by (simp add: np_sub_def np_binop_def is_array_shape)

lemma is_array_square_sub:
  assumes "is_array r c a" and "is_array r c b"
  shows "is_array r c (np_square (map2 (map2 (-)) b a))"
    and "i < r \<Longrightarrow> j < c \<Longrightarrow>
           entry (np_square (map2 (map2 (-)) b a)) i j = (entry b i j - entry a i j)\<^sup>2"
proof -
  show "is_array r c (np_square (map2 (map2 (-)) b a))"
    using assms by (auto simp: is_array_def np_square_def list_all_length)
  show "entry (np_square (map2 (map2 (-)) b a)) i j = (entry b i j - entry a i j)\<^sup>2"
    if "i < r" "j < c"
    using assms that
    by (simp add: np_square_def entry_def is_array_length is_array_nth)
qed

lemma is_array_square:
  assumes "is_array r c b"
  shows "is_array r c (np_square b)"
    and "i < r \<Longrightarrow> j < c \<Longrightarrow> entry (np_square b) i j = (entry b i j)\<^sup>2"
  using assms
  by (auto simp: is_array_def np_square_def list_all_length entry_def)

lemma sum_list_map2_nth:
  "length u = k \<Longrightarrow> length v = k \<Longrightarrow> sum_list (map2 (*) u v) = (\<Sum>l<k. u ! l * (v ! l :: real))"
  by (simp add: sum_list_sum_nth atLeast0LessThan)

lemma np_T_array:
  assumes "is_array n p x" and "0 < n"
  shows "is_array p n (np_T x)"
    and "j < p \<Longrightarrow> k < n \<Longrightarrow> entry (np_T x) j k = entry x k j"
proof -
  have T: "np_T x = map (\<lambda>j. map (\<lambda>row. row ! j) x) [0..<p]"
    using assms by (simp add: np_T_def is_array_shape)
  show "is_array p n (np_T x)"
    using assms by (simp add: T is_array_def list_all_length)
  show "entry (np_T x) j k = entry x k j" if "j < p" "k < n"
    using that assms by (simp add: T entry_def is_array_length)
qed

lemma np_dot_entries:
  assumes "is_array r k a" and "is_array k c b" and "0 < r" and "0 < k"
  shows "\<exists>d. np_dot a b = Inr d \<and> is_array r c d \<and>
           (\<forall>i<r. \<forall>j<c. entry d i j = (\<Sum>l<k. entry a i l * entry b l j))"
proof -
  let ?d = "map (\<lambda>row. map (\<lambda>col. vdot row col) (np_T b)) a"
  have d: "np_dot a b = Inr ?d"
    using assms by (simp add: np_dot_def is_array_shape)
  have Tb: "is_array c k (np_T b)" using np_T_array(1)[OF assms(2,4)] .
  have arr: "is_array r c ?d"
    using assms(1) Tb by (simp add: is_array_def list_all_length)
  have ent: "entry ?d i j = (\<Sum>l<k. entry a i l * entry b l j)" if "i < r" "j < c" for i j
  proof -
    have "entry ?d i j = vdot (a ! i) (np_T b ! j)"
      using that assms(1) Tb by (simp add: entry_def is_array_length)
    also have "\<dots> = (\<Sum>l<k. (a ! i) ! l * (np_T b ! j) ! l)"
      unfolding vdot_def
      by (rule sum_list_map2_nth) (simp_all add: is_array_nth[OF assms(1) that(1)] is_array_nth[OF Tb that(2)])
    also have "\<dots> = (\<Sum>l<k. entry a i l * entry b l j)"
      using np_T_array(2)[OF assms(2,4) that(2)] by (simp add: entry_def)
    finally show ?thesis .
  qed
  from d arr ent show ?thesis by blast
qed

lemma np_diag_full:
  "is_array p p (np_diag (np_full p v))"
  "i < p \<Longrightarrow> j < p \<Longrightarrow> entry (np_diag (np_full p v)) i j = (if i = j then v else 0)"
  by (simp_all add: np_diag_def np_full_def is_array_def list_all_length entry_def)

lemma np_add_arrays:
  assumes "is_array r c a" and "is_array r c b"
  shows "\<exists>d. np_add a b = Inr d \<and> is_array r c d \<and>
           (\<forall>i<r. \<forall>j<c. entry d i j = entry a i j + entry b i j)"
proof -
  have "np_add a b = Inr (map2 (map2 (+)) a b)"
    using assms by (simp add: np_add_def np_binop_def is_array_shape)
  moreover have "is_array r c (map2 (map2 (+)) a b)"
    using assms by (auto simp: is_array_def list_all_length)
  moreover have "entry (map2 (map2 (+)) a b) i j = entry a i j + entry b i j"
    if "i < r" "j < c" for i j
    using assms that by (simp add: entry_def is_array_length is_array_nth)
  ultimately show ?thesis by blast
qed

lemma normal_matrix_entries:
  assumes "is_array n p x" and "0 < n" and "0 < p"
  shows "\<exists>m. normal_matrix x nu0 = Inr m \<and> is_array p p m \<and>
           (\<forall>i<p. \<forall>j<p. entry m i j =
              (\<Sum>k<n. entry x k i * entry x k j) + (if i = j then 1 / nu0 else 0))"
proof -
  have T: "is_array p n (np_T x)" using np_T_array(1)[OF assms(1,2)] .
  from np_dot_entries[OF T assms(1) assms(3) assms(2)] obtain xtx where
    x: "np_dot (np_T x) x = Inr xtx" "is_array p p xtx"
       "\<forall>i<p. \<forall>j<p. entry xtx i j = (\<Sum>l<n. entry (np_T x) i l * entry x l j)"
    by blast
  from np_add_arrays[OF x(2) np_diag_full(1)[of p "1 / nu0"]] obtain m where
    m: "np_add xtx (np_diag (np_full p (1 / nu0))) = Inr m" "is_array p p m"
       "\<forall>i<p. \<forall>j<p. entry m i j = entry xtx i j + entry (np_diag (np_full p (1 / nu0))) i j"
    by blast
  have s: "snd (shape x) = p" using assms by (simp add: is_array_shape)
  have "normal_matrix x nu0 = Inr m"
    by (simp add: normal_matrix_def x(1) bind_err_Inr s m(1))
  moreover have "entry m i j = (\<Sum>k<n. entry x k i * entry x k j) + (if i = j then 1 / nu0 else 0)"
    if "i < p" "j < p" for i j
  proof -
    have "(\<Sum>l<n. entry (np_T x) i l * entry x l j) = (\<Sum>k<n. entry x k i * entry x k j)"
      by (intro sum.cong refl) (simp add: np_T_array(2)[OF assms(1,2) that(1)])
    with m(3) x(3) that np_diag_full(2)[OF that, of "1 / nu0"] show ?thesis by simp
  qed
  ultimately show ?thesis using m(2) by blast
qed

text \<open>The matrix \<open>X\<^sup>T X + (1 / nu) I\<close> is injective for \<open>nu > 0\<close>: a solve has one solution.\<close>

lemma normal_kernel:
  fixes X :: "nat \<Rightarrow> nat \<Rightarrow> real" and d :: "nat \<Rightarrow> real"
  assumes "0 < nu0"
    and "\<forall>i<p. (\<Sum>l<p. ((\<Sum>k<n. X k i * X k l) + (if i = l then 1 / nu0 else 0)) * d l) = 0"
  shows "\<forall>l<p. d l = 0"
proof -
  let ?M = "\<lambda>i l. (\<Sum>k<n. X k i * X k l) + (if i = l then 1 / nu0 else 0)"
  have "(\<Sum>i<p. d i * (\<Sum>l<p. ?M i l * d l)) = 0"
    using assms(2) by simp
  moreover have "(\<Sum>i<p. d i * (\<Sum>l<p. ?M i l * d l)) =
      (\<Sum>i<p. \<Sum>l<p. \<Sum>k<n. (X k i * d i) * (X k l * d l)) + (\<Sum>i<p. (d i)\<^sup>2 / nu0)"
  proof -
    have "d i * (\<Sum>l<p. ?M i l * d l) =
        (\<Sum>l<p. \<Sum>k<n. (X k i * d i) * (X k l * d l)) + (d i)\<^sup>2 / nu0" if "i < p" for i
    proof -
      have "(\<Sum>l<p. ?M i l * d l) =
          (\<Sum>l<p. (\<Sum>k<n. X k i * X k l) * d l) + (\<Sum>l<p. (if i = l then 1 / nu0 else 0) * d l)"
        by (simp add: distrib_right sum.distrib)
      also have "(\<Sum>l<p. (if i = l then 1 / nu0 else 0) * d l) = d i / nu0"
      proof -
        have "(\<Sum>l<p. (if i = l then 1 / nu0 else 0) * d l) = (\<Sum>l<p. if l = i then d l / nu0 else 0)"
          by (intro sum.cong refl) simp
        also have "\<dots> = d i / nu0" using that by simp
        finally show ?thesis .
      qed
      finally have "d i * (\<Sum>l<p. ?M i l * d l) =
          d i * (\<Sum>l<p. (\<Sum>k<n. X k i * X k l) * d l) + d i * (d i / nu0)"
        by (simp add: distrib_left)
      also have "d i * (\<Sum>l<p. (\<Sum>k<n. X k i * X k l) * d l) =
          (\<Sum>l<p. \<Sum>k<n. (X k i * d i) * (X k l * d l))"
        by (simp add: sum_distrib_left sum_distrib_right mult_ac)
      finally show ?thesis by (simp add: power2_eq_square)
    qed
    then show ?thesis by (simp add: sum.distrib)
  qed
  moreover have "(\<Sum>i<p. \<Sum>l<p. \<Sum>k<n. (X k i * d i) * (X k l * d l)) =
      (\<Sum>k<n. (\<Sum>i<p. X k i * d i)\<^sup>2)"
  proof -
    have "(\<Sum>i<p. \<Sum>l<p. \<Sum>k<n. (X k i * d i) * (X k l * d l)) =
        (\<Sum>i<p. \<Sum>k<n. \<Sum>l<p. (X k i * d i) * (X k l * d l))"
      by (rule sum.cong[OF refl]) (rule sum.swap)
    also have "\<dots> = (\<Sum>k<n. \<Sum>i<p. \<Sum>l<p. (X k i * d i) * (X k l * d l))"
      by (rule sum.swap)
    also have "\<dots> = (\<Sum>k<n. (\<Sum>i<p. X k i * d i) * (\<Sum>l<p. X k l * d l))"
      by (simp add: sum_product)
    finally show ?thesis by (simp add: power2_eq_square)
  qed
  ultimately have z: "(\<Sum>k<n. (\<Sum>i<p. X k i * d i)\<^sup>2) + (\<Sum>i<p. (d i)\<^sup>2 / nu0) = 0"
    by simp
  have a: "0 \<le> (\<Sum>k<n. (\<Sum>i<p. X k i * d i)\<^sup>2)" by (intro sum_nonneg) simp
  have b: "0 \<le> (\<Sum>i<p. (d i)\<^sup>2 / nu0)" using assms(1) by (intro sum_nonneg) simp
  from z a b have "(\<Sum>i<p. (d i)\<^sup>2 / nu0) = 0" by linarith
  then have "\<forall>i\<in>{..<p}. (d i)\<^sup>2 / nu0 = 0"
    using assms(1) by (subst (asm) sum_nonneg_eq_0_iff) simp_all
  with assms(1) show ?thesis by simp
qed

lemma normal_matrix_injective:
  assumes nu: "0 < nu0" and x: "is_array n p x" "0 < n" "0 < p"
    and m: "normal_matrix x nu0 = Inr m"
    and w: "is_array p t w" "is_array p t w'"
    and eq: "np_dot m w = np_dot m w'"
  shows "w = w'"
proof -
  from normal_matrix_entries[OF x, of nu0] m have
    pm: "is_array p p m" and
    em: "\<forall>i<p. \<forall>j<p. entry m i j =
              (\<Sum>k<n. entry x k i * entry x k j) + (if i = j then 1 / nu0 else 0)"
    by auto
  from np_dot_entries[OF pm w(1) x(3) x(3)] obtain d where
    d: "np_dot m w = Inr d" "\<forall>i<p. \<forall>j<t. entry d i j = (\<Sum>l<p. entry m i l * entry w l j)"
    by blast
  from np_dot_entries[OF pm w(2) x(3) x(3)] obtain d' where
    d': "np_dot m w' = Inr d'" "\<forall>i<p. \<forall>j<t. entry d' i j = (\<Sum>l<p. entry m i l * entry w' l j)"
    by blast
  from eq d(1) d'(1) have dd: "d = d'" by simp
  have col: "entry w l j = entry w' l j" if "j < t" "l < p" for l j
  proof -
    have "\<forall>i<p. (\<Sum>l<p. ((\<Sum>k<n. entry x k i * entry x k l) + (if i = l then 1 / nu0 else 0))
            * (entry w l j - entry w' l j)) = 0"
    proof (intro allI impI)
      fix i assume i: "i < p"
      have "(\<Sum>l<p. ((\<Sum>k<n. entry x k i * entry x k l) + (if i = l then 1 / nu0 else 0))
            * (entry w l j - entry w' l j))
          = (\<Sum>l<p. entry m i l * (entry w l j - entry w' l j))"
        using em i by (intro sum.cong refl) simp
      also have "\<dots> = (\<Sum>l<p. entry m i l * entry w l j) - (\<Sum>l<p. entry m i l * entry w' l j)"
        by (simp add: right_diff_distrib sum_subtractf)
      also have "\<dots> = entry d i j - entry d' i j"
        using d(2) d'(2) i that(1) by simp
      finally show "(\<Sum>l<p. ((\<Sum>k<n. entry x k i * entry x k l) + (if i = l then 1 / nu0 else 0))
            * (entry w l j - entry w' l j)) = 0"
        using dd by simp
    qed
    from normal_kernel[OF nu this] that(2) show ?thesis by simp
  qed
  show ?thesis
  proof (rule nth_equalityI)
    show "length w = length w'" using w by (simp add: is_array_length)
  next
    fix l assume "l < length w"
    then have l: "l < p" using w(1) by (simp add: is_array_length)
    show "w ! l = w' ! l"
    proof (rule nth_equalityI)
      show "length (w ! l) = length (w' ! l)"
        using is_array_nth[OF w(1) l] is_array_nth[OF w(2) l] by simp
    next
      fix j assume "j < length (w ! l)"
      then have "j < t" using is_array_nth[OF w(1) l] by simp
      from col[OF this l] show "w ! l ! j = w' ! l ! j" by (simp add: entry_def)
    qed
  qed
qed

subsection \<open>The library calls of the loop\<close>

lemma iterates_length: "iterates L p th nu0 c xty v hs bs \<Longrightarrow> length hs = length bs"
  by (induction L p th nu0 c xty v hs bs rule: iterates.induct) simp_all

lemma for_loop_trace:
  "for_loop L c xty n fr = Inr (broke, fr') \<Longrightarrow>
     \<exists>hs bs. history' (self fr') = history' (self fr) @ hs
       \<and> calls fr' = calls fr @ map (Solve c) bs
       \<and> iters (self fr') = iters (self fr) + length bs
       \<and> iterates L (prox (self fr)) (threshold (self fr)) (nu (self fr)) c xty
            (coef_sparse fr) hs bs"
proof (induction n arbitrary: fr)
  case 0
  then show ?case by simp
next
  case (Suc n)
  from Suc.prems obtain crit fr1 where
    b: "loop_body L c xty fr = Inr (crit, fr1)" and
    r: "(if crit < tol (self fr1) then Inr (True, fr1) else for_loop L c xty n fr1) = Inr (broke, fr')"
    unfolding for_loop_Suc_Inr by blast
  from loop_body_Inr[OF b] obtain b1 w1 where
    f: "np_add xty (np_div_scalar (coef_sparse fr) (nu (self fr))) = Inr b1"
       "cho_solve L c b1 = Inr w1"
       "coef_sparse fr1 = prox (self fr) w1 (threshold (self fr))"
       "calls fr1 = calls fr @ [Solve c b1]"
       "history' (self fr1) = history' (self fr) @ [coef_sparse fr1]"
       "iters (self fr1) = iters (self fr) + 1"
    by auto
  have step: "iterates L (prox (self fr)) (threshold (self fr)) (nu (self fr)) c xty
      (coef_sparse fr) (coef_sparse fr1 # hs) (b1 # bs)
    \<longleftrightarrow> iterates L (prox (self fr)) (threshold (self fr)) (nu (self fr)) c xty
      (coef_sparse fr1) hs bs" for hs bs
    using f(1-3) by simp
  show ?case
  proof (cases "crit < tol (self fr1)")
    case True
    with r have "fr' = fr1" by simp
    with f step[of "[]" "[]"] show ?thesis
      by (intro exI[of _ "[coef_sparse fr1]"] exI[of _ "[b1]"]) simp
  next
    case False
    with r have "for_loop L c xty n fr1 = Inr (broke, fr')" by simp
    from Suc.IH[OF this] obtain hs bs where
      i: "history' (self fr') = history' (self fr1) @ hs"
         "calls fr' = calls fr1 @ map (Solve c) bs"
         "iters (self fr') = iters (self fr1) + length bs"
         "iterates L (prox (self fr1)) (threshold (self fr1)) (nu (self fr1)) c xty
            (coef_sparse fr1) hs bs"
      by blast
    from loop_body_fields[OF b] i(4)
    have "iterates L (prox (self fr)) (threshold (self fr)) (nu (self fr)) c xty
            (coef_sparse fr1) hs bs"
      by simp
    with i(1-3) f step[of hs bs] show ?thesis
      by (intro exI[of _ "coef_sparse fr1 # hs"] exI[of _ "b1 # bs"]) simp
  qed
qed

subsection \<open>The iteration does not read the attribute \<open>coef_full_\<close>\<close>







subsection \<open>Runs of the concrete instance\<close>

lemmas np_eval =
  normal_matrix_def np_dot_def np_T_def shape_def vdot_def np_add_def np_binop_def
  np_diag_def np_full_def np_sub_def np_div_scalar_def np_square_def np_zeros_like_def
  np_sum_def entry_def bcast_dim_def bcast_entry_def

lemmas sr3_eval =
  reduce_def update_full_coef_def update_sparse_coef_def convergence_criterion_def
  prox_l0_def elementwise_def l0_def scalar_linalg_def example_sr3_def bind_err_def Let_def

lemma example_converged:
  "reduce scalar_linalg (example_sr3 3 [[2]]) [[1]] [[2]] =
     Inr \<lparr>obj = (example_sr3 3 [[2]])\<lparr>iters := 2, history' := [[[2]], [[2]]],
                                         coef_full' := Some [[2]]\<rparr>,
          exit = Converged, emitted = [],
          lib_log = [Factor [[2]], Solve ([[sqrt 2]], False) [[4]],
                     Solve ([[sqrt 2]], False) [[4]]]\<rparr>"
  by (simp add: np_eval sr3_eval eval_nat_numeral)

lemma example_exhausted:
  "reduce scalar_linalg (example_sr3 1 [[2]]) [[1]] [[2]] =
     Inr \<lparr>obj = (example_sr3 1 [[2]])\<lparr>iters := 1, history' := [[[2]]],
                                         coef_full' := Some [[2]]\<rparr>,
          exit = Exhausted, emitted = [ConvergenceWarning 1],
          lib_log = [Factor [[2]], Solve ([[sqrt 2]], False) [[4]]]\<rparr>"
  by (simp add: np_eval sr3_eval eval_nat_numeral)

lemma example_one_converged:
  "reduce scalar_linalg (example_sr3 1 [[0]]) [[1]] [[0]] =
     Inr \<lparr>obj = (example_sr3 1 [[0]])\<lparr>iters := 1, history' := [[[0]]],
                                         coef_full' := Some [[0]]\<rparr>,
          exit = Converged, emitted = [],
          lib_log = [Factor [[2]], Solve ([[sqrt 2]], False) [[0]]]\<rparr>"
  by (simp add: np_eval sr3_eval eval_nat_numeral)

lemma fit_example: "fit L (example_sr3 n v) x y = reduce L (example_sr3 n v) x y"
  by (simp add: fit_def example_sr3_def)

lemma example_run_loop_exhausted:
  "run_loop scalar_linalg (example_sr3 1 [[2]]) [[1]] [[2]] =
     Inr (False, \<lparr>self = (example_sr3 1 [[2]])\<lparr>iters := 1, history' := [[[2]]]\<rparr>,
                  coef_sparse = [[2]], coef_full = Some [[2]],
                  calls = [Factor [[2]], Solve ([[sqrt 2]], False) [[4]]]\<rparr>)"
  by (simp add: run_loop_def np_eval sr3_eval eval_nat_numeral)

lemma example_init:
  "SR3_init (1 / 10) 1 (1 / 100000) ''l0'' n = (if n \<le> 0 then Inl (ValueError ''max_iter must be positive'') else Inr (example_sr3 n []))"
  by (simp add: SR3_init_def get_prox_def bind_err_Inr example_sr3_def)

lemma example_two_exhausted:
  "reduce scalar_linalg (example_sr3 2 [[1]]) [[1]] [[2]] =
     Inr \<lparr>obj = (example_sr3 2 [[1]])\<lparr>iters := 2, history' := [[[3 / 2]], [[7 / 4]]],
                                         coef' := [[7 / 4]], coef_full' := Some [[7 / 4]]\<rparr>,
          exit = Exhausted, emitted = [ConvergenceWarning 2],
          lib_log = [Factor [[2]], Solve ([[sqrt 2]], False) [[3]],
                     Solve ([[sqrt 2]], False) [[7 / 2]]]\<rparr>"
  by (simp add: np_eval sr3_eval eval_nat_numeral)

lemma scalar_linalg_solves:
  assumes "0 < a"
  shows "solves scalar_linalg [[a]] ([[sqrt a]], False)"
  unfolding solves_def
proof (intro allI impI)
  fix b w assume s: "cho_solve scalar_linalg ([[sqrt a]], False) b = Inr w"
  then have l: "length b = 1" and w: "w = np_div_scalar b ((sqrt a)\<^sup>2)"
    by (auto simp: scalar_linalg_def entry_def split: if_splits)
  from l obtain row where b: "b = [row]" by (cases b) auto
  have w': "w = [map (\<lambda>t. t / a) row]"
    using w assms by (simp add: b np_div_scalar_def)
  have "map (\<lambda>col. vdot [a] col) (np_T w) = row"
    using assms
    by (intro nth_equalityI) (simp_all add: w' np_T_def shape_def vdot_def)
  then show "np_dot [[a]] w = Inr b"
    by (simp add: np_dot_def b) (simp add: w' shape_def)
qed

section \<open>The claims\<close>

text \<open>
  C1. In every call of \<open>_reduce\<close> that returns, the matrix
  \<open>M = X\<^sup>T X + (1 / nu) I\<close> is factorized exactly once, before the loop: the log of
  library calls is one \<open>Factor M\<close> followed by one \<open>Solve\<close> for each iteration, and
  every solve is given the factorization \<open>c\<close> that this one call returned. The
  right-hand side of each solve is \<open>X\<^sup>T Y + v / nu\<close> for the sparse coefficient \<open>v\<close>
  before it, and the full coefficient that is stored is the result \<open>w\<close> of the last
  solve. When the library keeps its contract (a solve with the factorization of \<open>M\<close>
  returns a solution of \<open>M w = b\<close>), \<open>w\<close> solves \<open>M w = X\<^sup>T Y + v / nu\<close>; for an
  \<open>n \<times> p\<close> array \<open>X\<close> the entries of \<open>M\<close> are those of \<open>X\<^sup>T X + (1 / nu) I\<close>, and for
  \<open>nu > 0\<close> this system has no other solution, so \<open>w\<close> is \<open>M\<^sup>-\<^sup>1\<close> applied to the
  right-hand side.
\<close>

theorem full_update_reuses_factorization:
  assumes "reduce L s x y = Inr r"
  shows "\<exists>m c xty hs bs w.
      normal_matrix x (nu s) = Inr m \<and> cho_factor L m = Inr c \<and>
      np_dot (np_T x) y = Inr xty \<and>
      lib_log r = Factor m # map (Solve c) bs \<and>
      length bs = iters (obj r) - iters s \<and>
      history' (obj r) = history' s @ hs \<and>
      iterates L (prox s) (threshold s) (nu s) c xty (coef' s) hs bs \<and>
      bs \<noteq> [] \<and> cho_solve L c (last bs) = Inr w \<and> coef_full' (obj r) = Some w \<and>
      (solves L m c \<longrightarrow> np_dot m w = Inr (last bs)) \<and>
      (is_array n p x \<and> 0 < n \<and> 0 < p \<longrightarrow>
         is_array p p m \<and>
         (\<forall>i<p. \<forall>j<p. entry m i j =
            (\<Sum>k<n. entry x k i * entry x k j) + (if i = j then 1 / nu s else 0)) \<and>
         (0 < nu s \<and> is_array p t w \<longrightarrow>
            (\<forall>w'. is_array p t w' \<and> np_dot m w' = np_dot m w \<longrightarrow> w' = w)))"
proof -
  from assms obtain broke fr w where
    l: "run_loop L s x y = Inr (broke, fr)" and w: "coef_full fr = Some w" and
    r: "r = \<lparr>obj = (self fr)\<lparr>coef' := coef_sparse fr, coef_full' := Some w\<rparr>,
             exit = (if broke then Converged else Exhausted),
             emitted = (if broke then [] else [ConvergenceWarning (max_iter s)]),
             lib_log = calls fr\<rparr>"
    unfolding reduce_Inr by blast
  from l obtain m c xty where
    m: "normal_matrix x (nu s) = Inr m" "cho_factor L m = Inr c"
       "np_dot (np_T x) y = Inr xty" and
    fl: "for_loop L c xty (nat (max_iter s))
          \<lparr>self = s, coef_sparse = coef' s, coef_full = None, calls = [Factor m]\<rparr> = Inr (broke, fr)"
    unfolding run_loop_Inr by blast
  from for_loop_trace[OF fl] obtain hs bs where
    t: "history' (self fr) = history' s @ hs"
       "calls fr = Factor m # map (Solve c) bs"
       "iters (self fr) = iters s + length bs"
       "iterates L (prox s) (threshold s) (nu s) c xty (coef' s) hs bs"
    by auto
  have p: "0 < max_iter s" using run_loop_positive[OF l w] .
  from run_loop_left(1)[OF l p] obtain c' b' w' where
    lc: "last (calls fr) = Solve c' b'" "cho_solve L c' b' = Inr w'" "coef_full fr = Some w'"
    unfolding last_computed_def by blast
  have ne: "bs \<noteq> []"
  proof
    assume "bs = []"
    with t(2) lc(1) show False by simp
  qed
  with t(2) lc(1) have "c' = c" "b' = last bs" by (simp_all add: last_map)
  with lc w have sol: "cho_solve L c (last bs) = Inr w" by simp
  then have con: "solves L m c \<longrightarrow> np_dot m w = Inr (last bs)"
    unfolding solves_def by blast
  have mat: "is_array p p m \<and>
         (\<forall>i<p. \<forall>j<p. entry m i j =
            (\<Sum>k<n. entry x k i * entry x k j) + (if i = j then 1 / nu s else 0)) \<and>
         (0 < nu s \<and> is_array p t w \<longrightarrow>
            (\<forall>w'. is_array p t w' \<and> np_dot m w' = np_dot m w \<longrightarrow> w' = w))"
    if x: "is_array n p x \<and> 0 < n \<and> 0 < p"
  proof -
    from x have x': "is_array n p x" "0 < n" "0 < p" by simp_all
    from normal_matrix_entries[OF x', of "nu s"] m(1) have
      "is_array p p m"
      "\<forall>i<p. \<forall>j<p. entry m i j =
            (\<Sum>k<n. entry x k i * entry x k j) + (if i = j then 1 / nu s else 0)"
      by auto
    moreover have "\<forall>w'. is_array p t w' \<and> np_dot m w' = np_dot m w \<longrightarrow> w' = w"
      if "0 < nu s \<and> is_array p t w"
      using normal_matrix_injective[OF _ x' m(1), of t _ w] that by blast
    ultimately show ?thesis by blast
  qed
  from m t ne sol r con mat show ?thesis
    by (intro exI[of _ m] exI[of _ c] exI[of _ xty] exI[of _ hs] exI[of _ bs] exI[of _ w]) simp
qed

theorem full_update_reuses_factorization_witness:
  "normal_matrix [[1]] 1 = Inr [[2]] \<and> solves scalar_linalg [[2]] ([[sqrt 2]], False) \<and>
   np_dot [[2]] [[7 / 4]] = Inr [[7 / 2]]"
proof -
  let ?R = "\<lparr>obj = (example_sr3 2 [[1]])\<lparr>iters := 2, history' := [[[3 / 2]], [[7 / 4]]],
                                         coef' := [[7 / 4]], coef_full' := Some [[7 / 4]]\<rparr>,
          exit = Exhausted, emitted = [ConvergenceWarning 2],
          lib_log = [Factor [[2]], Solve ([[sqrt 2]], False) [[3]],
                     Solve ([[sqrt 2]], False) [[7 / 2]]]\<rparr>"
  have s: "solves scalar_linalg [[2]] ([[sqrt 2]], False)"
    by (rule scalar_linalg_solves) simp
  from full_update_reuses_factorization[OF example_two_exhausted, where n = 1 and p = 1 and t = 1]
  obtain m c bs w where
    f: "normal_matrix [[1]] (nu (example_sr3 2 [[1]])) = Inr m"
       "lib_log ?R = Factor m # map (Solve c) bs"
       "bs \<noteq> []" "coef_full' (obj ?R) = Some w"
       "solves scalar_linalg m c \<longrightarrow> np_dot m w = Inr (last bs)"
    by (elim exE conjE) (rule that, assumption+)
  from f(2) have m: "m = [[2]]" by simp
  from f(2,3) have c: "c = ([[sqrt 2]], False)" by (cases bs) auto
  from f(2) c have bs: "bs = [[[3]], [[7 / 2]]]"
    by (auto simp: map_eq_Cons_conv)
  from f(4) have w: "w = [[7 / 4]]" by simp
  from f(1,5) s show ?thesis
    by (simp add: m c bs w example_sr3_def)
qed

text \<open>
  C3. Every call of \<open>_reduce\<close> that returns has left the loop in exactly one of two
  ways. Either by \<open>break\<close> (Converged): then the convergence criterion on the final
  history is strictly below \<open>tol\<close>, after at least one and at most \<open>max_iter\<close>
  iterations. Or by running out of iterations (Exhausted): then exactly \<open>max_iter\<close>
  iterations were performed and the criterion on the final history is at least \<open>tol\<close>.
  A fit runs \<open>_reduce\<close>, so this holds of every fit that completes.
\<close>

theorem reduce_exit_criterion:
  assumes "reduce L s x y = Inr r"
  shows "\<exists>crit. convergence_criterion (obj r) = Inr crit \<and>
           ((exit r = Converged \<and> crit < tol s \<and> iters s < iters (obj r) \<and>
               iters (obj r) \<le> iters s + nat (max_iter s))
            \<or> (exit r = Exhausted \<and> tol s \<le> crit \<and>
               iters (obj r) = iters s + nat (max_iter s)))"
proof -
  from assms obtain broke fr w where
    l: "run_loop L s x y = Inr (broke, fr)" and w: "coef_full fr = Some w" and
    r: "r = \<lparr>obj = (self fr)\<lparr>coef' := coef_sparse fr, coef_full' := Some w\<rparr>,
             exit = (if broke then Converged else Exhausted),
             emitted = (if broke then [] else [ConvergenceWarning (max_iter s)]),
             lib_log = calls fr\<rparr>"
    unfolding reduce_Inr by blast
  have p: "0 < max_iter s" using run_loop_positive[OF l w] .
  from run_loop_left(2)[OF l p] obtain crit where
    c: "convergence_criterion (self fr) = Inr crit" "broke \<longleftrightarrow> crit < tol s"
    by blast
  show ?thesis
  proof (cases broke)
    case True
    with c r run_loop_frame(4,6)[OF l] show ?thesis by simp
  next
    case False
    with c r run_loop_frame(5)[OF l] show ?thesis by simp
  qed
qed

theorem reduce_exit_criterion_witness:
  "(\<exists>crit. convergence_criterion
             ((example_sr3 3 [[2]])\<lparr>iters := 2, history' := [[[2]], [[2]]],
                                     coef_full' := Some [[2]]\<rparr>) = Inr crit \<and>
      crit < 1 / 100000) \<and>
   (\<exists>crit. convergence_criterion
             ((example_sr3 1 [[2]])\<lparr>iters := 1, history' := [[[2]]],
                                     coef_full' := Some [[2]]\<rparr>) = Inr crit \<and>
      1 / 100000 \<le> crit)"
  using reduce_exit_criterion[OF example_converged] reduce_exit_criterion[OF example_exhausted]
  by (simp add: example_sr3_def)

text \<open>
  C5. When the loop of \<open>_reduce\<close> is left, by exhaustion or by \<open>break\<close>, in an optimizer
  with \<open>max_iter \<ge> 1\<close>, the call completes: the local \<open>coef_full\<close> is bound to the
  result of the last solve, \<open>coef_sparse\<close> is the operator applied to it and the last
  snapshot of the history, and both are stored in the object by the same assignments
  on either exit. The exits differ only in the warning: on exhaustion one
  \<open>ConvergenceWarning\<close> is emitted, and it is not an error.
\<close>

theorem exhausted_warns_and_stores:
  assumes "0 < max_iter s" and "run_loop L s x y = Inr (broke, fr)"
  shows "\<exists>w. coef_full fr = Some w \<and> last_computed L fr \<and>
           reduce L s x y =
             Inr \<lparr>obj = (self fr)\<lparr>coef' := coef_sparse fr, coef_full' := Some w\<rparr>,
                  exit = (if broke then Converged else Exhausted),
                  emitted = (if broke then [] else [ConvergenceWarning (max_iter s)]),
                  lib_log = calls fr\<rparr>"
proof -
  have lc: "last_computed L fr" using run_loop_left(1)[OF assms(2,1)] .
  then obtain w where w: "coef_full fr = Some w" unfolding last_computed_def by blast
  with lc assms(2) show ?thesis unfolding reduce_Inr by blast
qed

theorem exhausted_warns_and_stores_witness:
  "0 < max_iter (example_sr3 1 [[2]]) \<and>
   reduce scalar_linalg (example_sr3 1 [[2]]) [[1]] [[2]] =
     Inr \<lparr>obj = (example_sr3 1 [[2]])\<lparr>iters := 1, history' := [[[2]]], coef' := [[2]],
                                         coef_full' := Some [[2]]\<rparr>,
          exit = Exhausted, emitted = [ConvergenceWarning 1],
          lib_log = [Factor [[2]], Solve ([[sqrt 2]], False) [[4]]]\<rparr>"
proof -
  have p: "0 < max_iter (example_sr3 1 [[2]])" by (simp add: example_sr3_def)
  from exhausted_warns_and_stores[OF p example_run_loop_exhausted] p
  show ?thesis by (simp add: example_sr3_def)
qed

text \<open>
  C6. \<open>_reduce\<close> only appends to the history, one snapshot for each iteration it counts,
  at most \<open>max_iter\<close> of them. A fit starts from the empty history and the counter
  \<open>0\<close>, so when it returns the length of the history is the number of iterations
  performed, which is at most \<open>max_iter\<close>.
\<close>

theorem history_length_is_iterations:
  "(reduce L s x y = Inr r \<longrightarrow>
      (\<exists>hs. history' (obj r) = history' s @ hs \<and> iters (obj r) = iters s + length hs \<and>
         length hs \<le> nat (max_iter s)))
   \<and> (fit L s x y = Inr r' \<longrightarrow>
      length (history' (obj r')) = iters (obj r') \<and> iters (obj r') \<le> nat (max_iter s))"
proof -
  have red: "\<exists>hs. history' (obj r) = history' s @ hs \<and> iters (obj r) = iters s + length hs \<and>
         length hs \<le> nat (max_iter s)"
    if a: "reduce L s x y = Inr r" for s r
  proof -
    from a obtain broke fr w where
      l: "run_loop L s x y = Inr (broke, fr)" and
      r: "r = \<lparr>obj = (self fr)\<lparr>coef' := coef_sparse fr, coef_full' := Some w\<rparr>,
               exit = (if broke then Converged else Exhausted),
               emitted = (if broke then [] else [ConvergenceWarning (max_iter s)]),
               lib_log = calls fr\<rparr>"
      unfolding reduce_Inr by blast
    from run_loop_frame(7)[OF l] obtain hs where
      h: "history' (self fr) = history' s @ hs" "iters (self fr) = iters s + length hs"
      by blast
    with run_loop_frame(4)[OF l] have "length hs \<le> nat (max_iter s)" by simp
    with h r show ?thesis by simp
  qed
  have "length (history' (obj r')) = iters (obj r') \<and> iters (obj r') \<le> nat (max_iter s)"
    if a: "fit L s x y = Inr r'"
  proof -
    from a have "reduce L (s\<lparr>iters := 0, history' := []\<rparr>) x y = Inr r'"
      by (simp add: fit_reduce)
    from red[OF this] show ?thesis by auto
  qed
  with red show ?thesis by blast
qed

theorem history_length_is_iterations_witness:
  "fit scalar_linalg (example_sr3 3 [[2]]) [[1]] [[2]] =
     Inr \<lparr>obj = (example_sr3 3 [[2]])\<lparr>iters := 2, history' := [[[2]], [[2]]],
                                         coef_full' := Some [[2]]\<rparr>,
          exit = Converged, emitted = [],
          lib_log = [Factor [[2]], Solve ([[sqrt 2]], False) [[4]],
                     Solve ([[sqrt 2]], False) [[4]]]\<rparr> \<and>
   length [[[2]], [[2::real]]] = (2::nat) \<and> (2::nat) \<le> nat (max_iter (example_sr3 3 [[2]]))"
proof -
  have f: "fit scalar_linalg (example_sr3 3 [[2]]) [[1]] [[2]] =
     Inr \<lparr>obj = (example_sr3 3 [[2]])\<lparr>iters := 2, history' := [[[2]], [[2]]],
                                         coef_full' := Some [[2]]\<rparr>,
          exit = Converged, emitted = [],
          lib_log = [Factor [[2]], Solve ([[sqrt 2]], False) [[4]],
                     Solve ([[sqrt 2]], False) [[4]]]\<rparr>"
    by (simp add: fit_example example_converged)
  from history_length_is_iterations[of scalar_linalg "example_sr3 3 [[2]]" "[[1]]" "[[2]]",
      THEN conjunct2, rule_format, OF f] f
  show ?thesis by (simp add: example_sr3_def)
qed

text \<open>
  C8 says that \<open>max_iter = 1\<close> forces an Exhausted exit with a warning. The source
  checks the criterion after the first iteration as after any other: a fit on one
  feature with \<open>X = [[1]]\<close>, \<open>Y = [[0]]\<close>, the initial guess \<open>[[0]]\<close> and the default
  hyperparameters computes the snapshot \<open>[[0]]\<close>, whose criterion \<open>0\<close> is below
  \<open>tol\<close>, and ends Converged without a warning.
\<close>

theorem max_iter_one_converged:
  "SR3_init (1 / 10) 1 (1 / 100000) ''l0'' 1 = Inr (example_sr3 1 []) \<and>
   fit scalar_linalg ((example_sr3 1 [])\<lparr>coef' := [[0]]\<rparr>) [[1]] [[0]] =
     Inr \<lparr>obj = (example_sr3 1 [[0]])\<lparr>iters := 1, history' := [[[0]]],
                                         coef_full' := Some [[0]]\<rparr>,
          exit = Converged, emitted = [],
          lib_log = [Factor [[2]], Solve ([[sqrt 2]], False) [[0]]]\<rparr>"
proof -
  have "(example_sr3 1 [])\<lparr>coef' := [[0]]\<rparr> = example_sr3 1 [[0]]"
    by (simp add: example_sr3_def)
  then show ?thesis
    by (simp add: example_init fit_example example_one_converged)
qed

text \<open>
  C8, as the source has it. With \<open>max_iter = 1\<close> a fit that returns has performed
  exactly one iteration, its history is the one snapshot that it stores as the sparse
  coefficient, and the full coefficient is stored. It ends Exhausted, with the warning,
  exactly when the sum of the squares of that snapshot is at least \<open>tol\<close>; otherwise it
  ends Converged with no warning.
\<close>

theorem fit_max_iter_one:
  assumes "max_iter s = 1" and "fit L s x y = Inr r"
  shows "iters (obj r) = 1 \<and> history' (obj r) = [coef' (obj r)] \<and>
         (\<exists>w. coef_full' (obj r) = Some w \<and> coef' (obj r) = prox s w (threshold s)) \<and>
         (exit r = Exhausted \<longleftrightarrow> tol s \<le> np_sum (np_square (coef' (obj r)))) \<and>
         (exit r = Converged \<longleftrightarrow> np_sum (np_square (coef' (obj r))) < tol s) \<and>
         (emitted r = [ConvergenceWarning 1] \<longleftrightarrow> exit r = Exhausted) \<and>
         (emitted r = [] \<longleftrightarrow> exit r = Converged)"
proof -
  let ?s = "s\<lparr>iters := 0, history' := []\<rparr>"
  from assms(2) have "reduce L ?s x y = Inr r" by (simp add: fit_reduce)
  then obtain broke fr w where
    l: "run_loop L ?s x y = Inr (broke, fr)" and w: "coef_full fr = Some w" and
    r: "r = \<lparr>obj = (self fr)\<lparr>coef' := coef_sparse fr, coef_full' := Some w\<rparr>,
             exit = (if broke then Converged else Exhausted),
             emitted = (if broke then [] else [ConvergenceWarning (max_iter ?s)]),
             lib_log = calls fr\<rparr>"
    unfolding reduce_Inr by blast
  from l assms(1) obtain m c xty where
    fl: "for_loop L c xty (Suc 0)
          \<lparr>self = ?s, coef_sparse = coef' ?s, coef_full = None, calls = [Factor m]\<rparr> = Inr (broke, fr)"
    unfolding run_loop_Inr by auto
  then obtain crit fr1 where
    b: "loop_body L c xty \<lparr>self = ?s, coef_sparse = coef' ?s, coef_full = None, calls = [Factor m]\<rparr>
          = Inr (crit, fr1)" and
    e: "(if crit < tol (self fr1) then Inr (True, fr1) else for_loop L c xty 0 fr1) = Inr (broke, fr)"
    unfolding for_loop_Suc_Inr by blast
  from e have fr: "fr = fr1" and br: "broke \<longleftrightarrow> crit < tol (self fr1)"
    by (auto split: if_splits)
  from loop_body_Inr[OF b] obtain w1 where
    f: "coef_full fr1 = Some w1" "coef_sparse fr1 = prox ?s w1 (threshold ?s)"
       "self fr1 = ?s\<lparr>iters := iters ?s + 1, history' := history' ?s @ [coef_sparse fr1]\<rparr>"
       "convergence_criterion (self fr1) = Inr crit"
    by auto
  have h: "history' (self fr1) = [coef_sparse fr1]" "iters (self fr1) = 1"
    "tol (self fr1) = tol s"
    by (simp_all add: f(3))
  from convergence_criterion_single[OF h(1)] f(4)
  have crit: "crit = np_sum (np_square (coef_sparse fr1))" by simp
  from w fr f(1) have ww: "w = w1" by simp
  show ?thesis
    using r fr br h crit f(2) ww assms(1) by (cases broke) auto
qed

theorem fit_max_iter_one_witness:
  "max_iter (example_sr3 1 [[2]]) = 1 \<and>
   fit scalar_linalg (example_sr3 1 [[2]]) [[1]] [[2]] =
     Inr \<lparr>obj = (example_sr3 1 [[2]])\<lparr>iters := 1, history' := [[[2]]],
                                         coef_full' := Some [[2]]\<rparr>,
          exit = Exhausted, emitted = [ConvergenceWarning 1],
          lib_log = [Factor [[2]], Solve ([[sqrt 2]], False) [[4]]]\<rparr> \<and>
   tol (example_sr3 1 [[2]]) \<le> np_sum (np_square [[2]])"
proof -
  have m: "max_iter (example_sr3 1 [[2]]) = 1" by (simp add: example_sr3_def)
  have f: "fit scalar_linalg (example_sr3 1 [[2]]) [[1]] [[2]] =
     Inr \<lparr>obj = (example_sr3 1 [[2]])\<lparr>iters := 1, history' := [[[2]]],
                                         coef_full' := Some [[2]]\<rparr>,
          exit = Exhausted, emitted = [ConvergenceWarning 1],
          lib_log = [Factor [[2]], Solve ([[sqrt 2]], False) [[4]]]\<rparr>"
    by (simp add: fit_example example_exhausted)
  from fit_max_iter_one[OF m f] m f show ?thesis
    by (simp add: example_sr3_def)
qed

text \<open>
  C10. An optimizer that the constructor returned has \<open>max_iter \<ge> 1\<close>. With
  \<open>max_iter \<ge> 1\<close>, whenever the loop of \<open>_reduce\<close> is left its body has run at least
  once: the iteration counter has grown and the local \<open>coef_full\<close> is bound, so the
  post-loop assignments succeed and \<open>_reduce\<close> returns with the full coefficient stored.
  (With \<open>max_iter \<le> 0\<close> the assignment would raise \<open>UnboundLocalError\<close>.)
\<close>

theorem loop_body_runs_once:
  "(SR3_init th nu0 tol0 name mi = Inr s0 \<longrightarrow> 1 \<le> max_iter s0)
   \<and> (0 < max_iter s \<and> run_loop L s x y = Inr (broke, fr) \<longrightarrow>
        iters s < iters (self fr) \<and>
        (\<exists>w. coef_full fr = Some w \<and>
           (\<exists>r. reduce L s x y = Inr r \<and> coef_full' (obj r) = Some w \<and>
                coef' (obj r) = coef_sparse fr)))
   \<and> (max_iter s \<le> 0 \<and> run_loop L s x y = Inr (broke, fr) \<longrightarrow>
        reduce L s x y = Inl UnboundLocalError)"
proof (intro conjI impI)
  assume "SR3_init th nu0 tol0 name mi = Inr s0"
  then show "1 \<le> max_iter s0" unfolding SR3_init_Inr by auto
next
  assume a: "0 < max_iter s \<and> run_loop L s x y = Inr (broke, fr)"
  then have p: "0 < max_iter s" and l: "run_loop L s x y = Inr (broke, fr)" by simp_all
  have lc: "last_computed L fr" using run_loop_left(1)[OF l p] .
  then obtain w where w: "coef_full fr = Some w" unfolding last_computed_def by blast
  from run_loop_frame(7)[OF l] lc
  show "iters s < iters (self fr)"
  proof -
    from l obtain m c xty where
      fl: "for_loop L c xty (nat (max_iter s))
          \<lparr>self = s, coef_sparse = coef' s, coef_full = None, calls = [Factor m]\<rparr> = Inr (broke, fr)"
      unfolding run_loop_Inr by blast
    from for_loop_count[OF fl] p show ?thesis by (cases broke) auto
  qed
  from w l show "\<exists>w. coef_full fr = Some w \<and>
           (\<exists>r. reduce L s x y = Inr r \<and> coef_full' (obj r) = Some w \<and>
                coef' (obj r) = coef_sparse fr)"
    unfolding reduce_Inr by fastforce
next
  assume a: "max_iter s \<le> 0 \<and> run_loop L s x y = Inr (broke, fr)"
  then have "nat (max_iter s) = 0" by simp
  with a have "coef_full fr = None" unfolding run_loop_Inr by auto
  with a show "reduce L s x y = Inl UnboundLocalError"
    by (simp add: reduce_run_loop bind_err_Inr)
qed

theorem loop_body_runs_once_witness:
  "SR3_init (1 / 10) 1 (1 / 100000) ''l0'' 1 = Inr (example_sr3 1 []) \<and>
   1 \<le> max_iter (example_sr3 1 []) \<and>
   (\<exists>r. reduce scalar_linalg (example_sr3 1 [[2]]) [[1]] [[2]] = Inr r \<and>
        coef_full' (obj r) = Some [[2]] \<and> coef' (obj r) = [[2]])"
proof -
  have i: "SR3_init (1 / 10) 1 (1 / 100000) ''l0'' 1 = Inr (example_sr3 1 [])"
    by (simp add: example_init)
  have p: "0 < max_iter (example_sr3 1 [[2]])" by (simp add: example_sr3_def)
  note t = loop_body_runs_once[where th = "1 / 10" and ?nu0.0 = 1 and ?tol0.0 = "1 / 100000"
      and name = "''l0''" and mi = 1 and ?s0.0 = "example_sr3 1 []"
      and s = "example_sr3 1 [[2]]" and L = scalar_linalg and x = "[[1]]" and y = "[[2]]"
      and broke = False
      and fr = "\<lparr>self = (example_sr3 1 [[2]])\<lparr>iters := 1, history' := [[[2]]]\<rparr>,
                  coef_sparse = [[2]], coef_full = Some [[2]],
                  calls = [Factor [[2]], Solve ([[sqrt 2]], False) [[4]]]\<rparr>"]
  from t i have "1 \<le> max_iter (example_sr3 1 [])" by blast
  moreover from t p example_run_loop_exhausted
  have "\<exists>r. reduce scalar_linalg (example_sr3 1 [[2]]) [[1]] [[2]] = Inr r \<and>
        coef_full' (obj r) = Some [[2]] \<and> coef' (obj r) = [[2]]"
    by simp
  ultimately show ?thesis using i by blast
qed

text \<open>
  C4. The constructor fails if and only if \<open>threshold < 0\<close>, or \<open>nu \<le> 0\<close>, or
  \<open>tol \<le> 0\<close>, or \<open>max_iter \<le> 0\<close>, or the name of the thresholder is not one of
  \<open>l0\<close>, \<open>l1\<close>, \<open>cad\<close>. Every failure is a configuration error, and a failed
  construction is a value \<open>Inl e\<close>: there is no instance. On success the five
  hyperparameters are stored as given and \<open>prox\<close> is the operator that the registry
  resolves the name to.
\<close>

theorem SR3_init_fails_iff:
  "((\<exists>e. SR3_init th nu0 tol0 name mi = Inl e) \<longleftrightarrow>
      th < 0 \<or> nu0 \<le> 0 \<or> tol0 \<le> 0 \<or> mi \<le> 0 \<or> name \<notin> {''l0'', ''l1'', ''cad''})
   \<and> (\<forall>e. SR3_init th nu0 tol0 name mi = Inl e \<longrightarrow> is_ConfigurationError e)
   \<and> (\<forall>s. SR3_init th nu0 tol0 name mi = Inr s \<longrightarrow>
         threshold s = th \<and> nu s = nu0 \<and> tol s = tol0 \<and> thresholder s = name \<and>
         max_iter s = mi \<and> get_prox name = Inr (prox s) \<and>
         prox s \<in> {prox_l0, prox_l1, prox_cad})"
proof (intro conjI allI impI)
  show "(\<exists>e. SR3_init th nu0 tol0 name mi = Inl e) \<longleftrightarrow>
      th < 0 \<or> nu0 \<le> 0 \<or> tol0 \<le> 0 \<or> mi \<le> 0 \<or> name \<notin> {''l0'', ''l1'', ''cad''}"
    unfolding SR3_init_Inl by (simp add: ex_disj_distrib) linarith
next
  fix e assume "SR3_init th nu0 tol0 name mi = Inl e"
  then show "is_ConfigurationError e" unfolding SR3_init_Inl by auto
next
  fix s assume a: "SR3_init th nu0 tol0 name mi = Inr s"
  then show "threshold s = th" "nu s = nu0" "tol s = tol0" "thresholder s = name"
    "max_iter s = mi" "get_prox name = Inr (prox s)"
    unfolding SR3_init_Inr by auto
  from a show "prox s \<in> {prox_l0, prox_l1, prox_cad}"
    unfolding SR3_init_Inr get_prox_Inr by auto
qed

theorem SR3_init_fails_iff_witness:
  "(\<exists>e. SR3_init (- 1) 1 (1 / 100000) ''l0'' 30 = Inl e) \<and>
   (\<exists>e. SR3_init (1 / 10) 0 (1 / 100000) ''l0'' 30 = Inl e) \<and>
   (\<exists>e. SR3_init (1 / 10) 1 (1 / 100000) ''l0'' 0 = Inl e) \<and>
   (\<exists>e. SR3_init (1 / 10) 1 (1 / 100000) ''unknown'' 30 = Inl e) \<and>
   is_ConfigurationError (ConfigurationError ''unknown operator'') \<and>
   prox (example_sr3 30 []) \<in> {prox_l0, prox_l1, prox_cad}"
proof -
  have u: "SR3_init (1 / 10) 1 (1 / 100000) ''unknown'' 30 = Inl (ConfigurationError ''unknown operator'')"
    by (simp add: SR3_init_def get_prox_def bind_err_Inl)
  have i: "SR3_init (1 / 10) 1 (1 / 100000) ''l0'' 30 = Inr (example_sr3 30 [])"
    by (simp add: example_init)
  have 1: "\<exists>e. SR3_init (- 1) 1 (1 / 100000) ''l0'' 30 = Inl e"
    by (rule SR3_init_fails_iff[THEN conjunct1, THEN iffD2]) simp
  have 2: "\<exists>e. SR3_init (1 / 10) 0 (1 / 100000) ''l0'' 30 = Inl e"
    by (rule SR3_init_fails_iff[THEN conjunct1, THEN iffD2]) simp
  have 3: "\<exists>e. SR3_init (1 / 10) 1 (1 / 100000) ''l0'' 0 = Inl e"
    by (rule SR3_init_fails_iff[THEN conjunct1, THEN iffD2]) simp
  have 4: "\<exists>e. SR3_init (1 / 10) 1 (1 / 100000) ''unknown'' 30 = Inl e"
    by (rule SR3_init_fails_iff[THEN conjunct1, THEN iffD2]) simp
  have 5: "is_ConfigurationError (ConfigurationError ''unknown operator'')"
    by (rule SR3_init_fails_iff[THEN conjunct2, THEN conjunct1, rule_format, OF u])
  have 6: "prox (example_sr3 30 []) \<in> {prox_l0, prox_l1, prox_cad}"
    using SR3_init_fails_iff[THEN conjunct2, THEN conjunct2, rule_format, OF i] by blast
  from 1 2 3 4 5 6 show ?thesis by blast
qed

text \<open>
  C7. For a threshold \<open>th \<ge> 0\<close> the operator \<open>l0\<close> returns the value unchanged where
  \<open>|value| \<ge> th\<close> and \<open>0\<close> where \<open>|value| < th\<close>; at the tie \<open>|value| = th\<close> it keeps
  the value. In an optimizer constructed with the thresholder \<open>l0\<close>,
  \<open>_update_sparse_coef\<close> applies this rule to every entry of the full coefficient and
  appends the result to the history.
\<close>

theorem l0_hard_threshold:
  assumes "0 \<le> th"
  shows "(th \<le> \<bar>v\<bar> \<longrightarrow> l0 v th = v) \<and> (\<bar>v\<bar> < th \<longrightarrow> l0 v th = 0) \<and>
         (\<bar>v\<bar> = th \<longrightarrow> l0 v th = v) \<and>
         (SR3_init th nu0 tol0 ''l0'' mi = Inr s0 \<and> same_config s s0 \<and>
            update_sparse_coef s w = (v', s') \<longrightarrow>
            v' = map (map (\<lambda>t. if th \<le> \<bar>t\<bar> then t else 0)) w \<and>
            history' s' = history' s @ [v'])"
proof -
  have "v' = map (map (\<lambda>t. if th \<le> \<bar>t\<bar> then t else 0)) w \<and> history' s' = history' s @ [v']"
    if a: "SR3_init th nu0 tol0 ''l0'' mi = Inr s0" "same_config s s0"
      "update_sparse_coef s w = (v', s')"
  proof -
    from a(1) have "prox s0 = prox_l0" "threshold s0 = th"
      unfolding SR3_init_Inr get_prox_Inr by auto
    with a(2) have "prox s = prox_l0" "threshold s = th" by (simp_all add: same_config_def)
    with a(3) show ?thesis
      by (auto simp: update_sparse_coef_def Let_def prox_l0_def elementwise_def l0_def)
  qed
  then show ?thesis by (auto simp: l0_def)
qed

theorem l0_hard_threshold_witness:
  "(0::real) \<le> 1 / 10 \<and> l0 (1 / 10) (1 / 10) = 1 / 10 \<and> l0 (- (1 / 10)) (1 / 10) = - (1 / 10) \<and>
   l0 (9 / 100) (1 / 10) = 0 \<and>
   update_sparse_coef (example_sr3 30 []) [[1 / 10, 9 / 100], [- 3, - (1 / 10)]] =
     ([[1 / 10, 0], [- 3, - (1 / 10)]],
      (example_sr3 30 [])\<lparr>history' := [[[1 / 10, 0], [- 3, - (1 / 10)]]]\<rparr>)"
proof -
  have h: "(0::real) \<le> 1 / 10" by simp
  have i: "SR3_init (1 / 10) 1 (1 / 100000) ''l0'' 30 = Inr (example_sr3 30 [])"
    by (simp add: example_init)
  have c: "same_config (example_sr3 30 []) (example_sr3 30 [])" by (simp add: same_config_def)
  have u: "update_sparse_coef (example_sr3 30 []) [[1 / 10, 9 / 100], [- 3, - (1 / 10)]] =
     ([[1 / 10, 0], [- 3, - (1 / 10)]],
      (example_sr3 30 [])\<lparr>history' := [[[1 / 10, 0], [- 3, - (1 / 10)]]]\<rparr>)"
    by (simp add: update_sparse_coef_def Let_def example_sr3_def prox_l0_def elementwise_def l0_def)
  from l0_hard_threshold[OF h, of "1 / 10"] l0_hard_threshold[OF h, of "- (1 / 10)"]
    l0_hard_threshold[OF h, of "9 / 100"] u h
  show ?thesis by simp
qed

text \<open>
  C2. The convergence criterion is the sum, over all entries of the coefficient array
  (all features and all targets), of the squared difference of the last two snapshots
  of the history. When the history holds exactly one snapshot it is the sum of the
  squares of all entries of that snapshot, the difference to the array of zeros of the
  same shape.
\<close>

theorem convergence_criterion_sum:
  "(history' s = hs @ [a, b] \<and> is_array r c a \<and> is_array r c b \<longrightarrow>
      convergence_criterion s = Inr (\<Sum>i<r. \<Sum>j<c. (entry b i j - entry a i j)\<^sup>2))
   \<and> (history' s = [b] \<and> is_array r c b \<longrightarrow>
      convergence_criterion s = Inr (\<Sum>i<r. \<Sum>j<c. (entry b i j)\<^sup>2))"
proof (intro conjI impI)
  assume h: "history' s = hs @ [a, b] \<and> is_array r c a \<and> is_array r c b"
  then have a: "is_array r c a" and b: "is_array r c b" by simp_all
  from h have "convergence_criterion s = Inr (np_sum (np_square (map2 (map2 (-)) b a)))"
    by (simp add: convergence_criterion_def butlast_append np_sub_arrays[OF a b] bind_err_Inr)
  also have "np_sum (np_square (map2 (map2 (-)) b a)) =
      (\<Sum>i<r. \<Sum>j<c. entry (np_square (map2 (map2 (-)) b a)) i j)"
    by (rule np_sum_entries[OF is_array_square_sub(1)[OF a b]])
  also have "\<dots> = (\<Sum>i<r. \<Sum>j<c. (entry b i j - entry a i j)\<^sup>2)"
    by (intro sum.cong refl) (simp add: is_array_square_sub(2)[OF a b])
  finally show "convergence_criterion s = Inr (\<Sum>i<r. \<Sum>j<c. (entry b i j - entry a i j)\<^sup>2)" .
next
  assume h: "history' s = [b] \<and> is_array r c b"
  then have b: "is_array r c b" by simp
  from h have "convergence_criterion s = Inr (np_sum (np_square b))"
    by (simp add: convergence_criterion_single)
  also have "np_sum (np_square b) = (\<Sum>i<r. \<Sum>j<c. entry (np_square b) i j)"
    by (rule np_sum_entries[OF is_array_square(1)[OF b]])
  also have "\<dots> = (\<Sum>i<r. \<Sum>j<c. (entry b i j)\<^sup>2)"
    by (intro sum.cong refl) (simp add: is_array_square(2)[OF b])
  finally show "convergence_criterion s = Inr (\<Sum>i<r. \<Sum>j<c. (entry b i j)\<^sup>2)" .
qed

theorem convergence_criterion_sum_witness:
  "convergence_criterion ((example_sr3 30 [])\<lparr>history' := [[[9]], [[1, 2], [3, 4]], [[1, 0], [5, 4]]]\<rparr>)
     = Inr 8 \<and>
   convergence_criterion ((example_sr3 30 [])\<lparr>history' := [[[1, 0], [5, 4]]]\<rparr>) = Inr 42"
proof -
  let ?a = "[[1, 2], [3, 4]] :: ndarray" and ?b = "[[1, 0], [5, 4]] :: ndarray"
  have a: "is_array 2 2 ?a" and b: "is_array 2 2 ?b" by (simp_all add: is_array_def)
  have s: "(\<Sum>i<(2::nat). \<Sum>j<(2::nat). (entry ?b i j - entry ?a i j)\<^sup>2) = 8"
    "(\<Sum>i<(2::nat). \<Sum>j<(2::nat). (entry ?b i j)\<^sup>2) = 42"
    by (simp_all add: entry_def eval_nat_numeral lessThan_Suc)
  have 1: "history' ((example_sr3 30 [])\<lparr>history' := [[[9]], ?a, ?b]\<rparr>) = [[[9]]] @ [?a, ?b]"
    by simp
  have 2: "history' ((example_sr3 30 [])\<lparr>history' := [?b]\<rparr>) = [?b]"
    by simp
  from convergence_criterion_sum[THEN conjunct1, rule_format, OF conjI[OF 1 conjI[OF a b]]]
    convergence_criterion_sum[THEN conjunct2, rule_format, OF conjI[OF 2 b]] s
  show ?thesis by simp
qed



end
